theory Spec2Isabelle
  imports Complex_Main "HOL-Library.AList"
begin

section \<open>Random sources\<close>

text \<open>
  The scripts draw from three generators: Python's module \<^verbatim>\<open>random\<close>, numpy's
  \<^verbatim>\<open>np.random\<close> and Faker. Their internals are library code; a generator is modelled
  by the sequence of outcomes of its successive calls, and every function that draws
  takes the sequence and returns what is left of it.

  \<^item> \<^verbatim>\<open>random\<close>: a sequence of naturals. \<^verbatim>\<open>random.random()\<close> is a multiple of
    \<open>2\<^sup>-\<^sup>5\<^sup>3\<close> in \<open>[0, 1)\<close>; \<^verbatim>\<open>random.uniform(a, b)\<close> is
    \<^verbatim>\<open>a + (b - a) * random()\<close>; \<^verbatim>\<open>random.choice(seq)\<close> is \<^verbatim>\<open>seq[randbelow(len(seq))]\<close>.
  \<^item> \<^verbatim>\<open>np.random.normal(loc, scale)\<close> is \<^verbatim>\<open>loc + scale * z\<close> for a standard normal
    deviate \<open>z\<close>: a sequence of reals.
\<close>

type_synonym rng = "nat \<Rightarrow> nat"
type_synonym nprng = "nat \<Rightarrow> real"

definition rng_tail :: "(nat \<Rightarrow> 'a) \<Rightarrow> (nat \<Rightarrow> 'a)" where
  "rng_tail g = (\<lambda>i. g (Suc i))"

definition random_random :: "rng \<Rightarrow> real \<times> rng" where
  "random_random g = (real (g 0 mod 2 ^ 53) / 2 ^ 53, rng_tail g)"

definition randbelow :: "nat \<Rightarrow> rng \<Rightarrow> nat \<times> rng" where
  "randbelow n g = (g 0 mod n, rng_tail g)"

text \<open>Python's \<^verbatim>\<open>round(x)\<close> on a float: to the nearest integer, a tie to the even one.\<close>

definition py_round :: "real \<Rightarrow> int" where
  "py_round x =
     (let f = \<lfloor>x\<rfloor>; d = x - of_int f
      in if d < 1 / 2 then f else if 1 / 2 < d then f + 1
         else if even f then f else f + 1)"

text \<open>Python's \<^verbatim>\<open>int(x)\<close> on a float: truncation toward zero.\<close>

definition py_int :: "real \<Rightarrow> int" where
  "py_int x = (if 0 \<le> x then \<lfloor>x\<rfloor> else \<lceil>x\<rceil>)"

section \<open>Floating-point numbers\<close>

text \<open>
  A Python \<^verbatim>\<open>float\<close> is an IEEE double, modelled by the real number that it denotes. A
  literal such as \<^verbatim>\<open>0.03\<close> denotes the double nearest to the decimal, an integer over
  a power of two: these doubles are the constants below.
\<close>

definition d0_03 :: real where "d0_03 = 1080863910568919 / 2 ^ 55"
definition d0_05 :: real where "d0_05 = 3602879701896397 / 2 ^ 56"
definition d0_08 :: real where "d0_08 = 5764607523034235 / 2 ^ 56"
definition d0_20 :: real where "d0_20 = 3602879701896397 / 2 ^ 54"
definition d0_3 :: real where "d0_3 = 5404319552844595 / 2 ^ 54"
definition d0_60 :: real where "d0_60 = 5404319552844595 / 2 ^ 53"
definition d0_65 :: real where "d0_65 = 5854679515581645 / 2 ^ 53"
definition d0_69 :: real where "d0_69 = 1553741871442821 / 2 ^ 51"
definition d0_70 :: real where "d0_70 = 3152519739159347 / 2 ^ 52"
definition d0_87 :: real where "d0_87 = 7836263351624663 / 2 ^ 53"
definition d0_95 :: real where "d0_95 = 4278419646001971 / 2 ^ 52"

text \<open>
  An arithmetic operation on floats, and the conversion of an integer to a float, return
  a double nearest to the exact result. This rounding is the parameter \<open>fl\<close> of every
  function below that computes with floats: \<open>fl (a * b)\<close> is the float product of \<open>a\<close>
  and \<open>b\<close>. What is used of the rounding is \<open>nearest_rounding\<close>: \<open>fl x\<close> is at least as
  close to \<open>x\<close> as every number \<open>m / 2\<^sup>k\<close> with \<open>\<bar>m\<bar> \<le> 2\<^sup>5\<^sup>3\<close> and \<open>k \<le> 1074\<close>. These
  numbers are doubles, so the rounding to nearest of the machine has the property
  wherever the result does not overflow.
\<close>

definition is_double :: "real \<Rightarrow> bool" where
  "is_double d = (\<exists>m :: int. \<exists>k :: nat. \<bar>m\<bar> \<le> 2 ^ 53 \<and> k \<le> 1074 \<and> d = of_int m / 2 ^ k)"

definition nearest_rounding :: "(real \<Rightarrow> real) \<Rightarrow> bool" where
  "nearest_rounding fl = (\<forall>x d. is_double d \<longrightarrow> \<bar>fl x - x\<bar> \<le> \<bar>d - x\<bar>)"

text \<open>
  \<^verbatim>\<open>random.uniform(a, b)\<close> for floats \<open>a\<close> and \<open>b\<close>, and for integers \<open>a\<close> and \<open>b\<close>, whose
  difference is then exact; \<^verbatim>\<open>np.random.normal(loc, scale)\<close>.
\<close>

definition random_uniform :: "(real \<Rightarrow> real) \<Rightarrow> real \<Rightarrow> real \<Rightarrow> rng \<Rightarrow> real \<times> rng" where
  "random_uniform fl a b g =
     (case random_random g of (u, g') \<Rightarrow> (fl (a + fl (fl (b - a) * u)), g'))"

definition random_uniform_int :: "(real \<Rightarrow> real) \<Rightarrow> int \<Rightarrow> int \<Rightarrow> rng \<Rightarrow> real \<times> rng" where
  "random_uniform_int fl a b g =
     (case random_random g of (u, g') \<Rightarrow> (fl (of_int a + fl (of_int (b - a) * u)), g'))"

definition np_random_normal :: "(real \<Rightarrow> real) \<Rightarrow> real \<Rightarrow> real \<Rightarrow> nprng \<Rightarrow> real \<times> nprng" where
  "np_random_normal fl loc scale ng = (fl (loc + fl (scale * ng 0)), rng_tail ng)"

section \<open>Grade scores\<close>

text \<open>
  \<^verbatim>\<open>_generate_realistic_grade\<close> of \<^verbatim>\<open>complete_decade_generator.py\<close>; the function of
  the same name in \<^verbatim>\<open>decade_generator.py\<close> has the same body. The percentage drawn
  (the \<^verbatim>\<open>if\<close>/\<^verbatim>\<open>elif\<close>/\<^verbatim>\<open>else\<close> of the source) is \<open>realistic_percentage\<close>; the
  \<^verbatim>\<open>return\<close> expression is in \<open>generate_realistic_grade\<close>: the integer
  \<^verbatim>\<open>points_possible\<close> is converted to a float, and the float product is rounded.
\<close>

definition realistic_percentage :: "(real \<Rightarrow> real) \<Rightarrow> rng \<Rightarrow> nprng \<Rightarrow> real \<times> rng \<times> nprng" where
  "realistic_percentage fl g ng =
     (case random_random g of (rand, g1) \<Rightarrow>
        if rand < d0_03 then
          (case random_uniform fl d0_95 1 g1 of (percentage, g2) \<Rightarrow> (percentage, g2, ng))
        else if rand < d0_08 then
          (case random_uniform fl 0 d0_69 g1 of (percentage, g2) \<Rightarrow> (percentage, g2, ng))
        else
          (case np_random_normal fl d0_87 d0_08 ng of (percentage, ng1) \<Rightarrow>
             (max d0_70 (min 1 percentage), g1, ng1)))"

definition generate_realistic_grade ::
  "(real \<Rightarrow> real) \<Rightarrow> int \<Rightarrow> rng \<Rightarrow> nprng \<Rightarrow> int \<times> rng \<times> nprng" where
  "generate_realistic_grade fl points_possible g ng =
     (case realistic_percentage fl g ng of (percentage, g', ng') \<Rightarrow>
        (max 0 (min points_possible
                  (py_round (fl (fl (of_int points_possible) * percentage)))), g', ng'))"

text \<open>
  The body of the row loop of \<^verbatim>\<open>generate_proper_grades\<close> in
  \<^verbatim>\<open>grade_distribution_hotfix.py\<close>: the percentage is on the scale 0 to 100, all
  its parameters are integers, and the score rounds the float product of the float
  quotient \<^verbatim>\<open>percentage / 100\<close> and \<^verbatim>\<open>points_possible\<close>.
\<close>

definition proper_percentage :: "(real \<Rightarrow> real) \<Rightarrow> rng \<Rightarrow> nprng \<Rightarrow> real \<times> rng \<times> nprng" where
  "proper_percentage fl g ng =
     (case random_random g of (rand, g1) \<Rightarrow>
        if rand < d0_03 then
          (case random_uniform_int fl 95 100 g1 of (percentage, g2) \<Rightarrow> (percentage, g2, ng))
        else if rand < d0_08 then
          (case random_uniform_int fl 0 69 g1 of (percentage, g2) \<Rightarrow> (percentage, g2, ng))
        else
          (case np_random_normal fl 85 5 ng of (percentage, ng1) \<Rightarrow>
             (max 70 (min 94 percentage), g1, ng1)))"

definition proper_grade_score ::
  "(real \<Rightarrow> real) \<Rightarrow> int \<Rightarrow> rng \<Rightarrow> nprng \<Rightarrow> int \<times> rng \<times> nprng" where
  "proper_grade_score fl points_possible g ng =
     (case proper_percentage fl g ng of (percentage, g', ng') \<Rightarrow>
        (let score = py_round (fl (fl (percentage / 100) * fl (of_int points_possible)))
         in (max 0 (min points_possible score), g', ng')))"

section \<open>Grade tables\<close>

record assignment =
  assignment_id :: int
  class_id :: int
  points_possible :: int
  due_date :: string
  term_id :: int

record enrollment =
  enr_student_id :: int
  enr_class_id :: int

record grade =
  grade_id :: int
  g_student_id :: int
  g_assignment_id :: int
  score :: int
  submitted_on :: string
  g_term_id :: int

text \<open>
  \<^verbatim>\<open>_generate_grades\<close>: for every assignment row, every student enrolled in the
  assignment's class gets one grade row. The inner loop is \<open>grades_for_students\<close>, the
  outer one \<open>grades_for_assignments\<close>; \<open>gid\<close> is the running \<^verbatim>\<open>grade_id\<close>.
\<close>

fun grades_for_students ::
  "(real \<Rightarrow> real) \<Rightarrow> assignment \<Rightarrow> int list \<Rightarrow> int \<Rightarrow> rng \<Rightarrow> nprng \<Rightarrow> grade list \<times> int \<times> rng \<times> nprng" where
  "grades_for_students fl a [] gid g ng = ([], gid, g, ng)"
| "grades_for_students fl a (sid # sids) gid g ng =
     (case generate_realistic_grade fl (points_possible a) g ng of (sc, g1, ng1) \<Rightarrow>
        (case grades_for_students fl a sids (gid + 1) g1 ng1 of (rows, gid', g2, ng2) \<Rightarrow>
           (\<lparr>grade_id = gid, g_student_id = sid, g_assignment_id = assignment_id a,
             score = sc, submitted_on = due_date a, g_term_id = term_id a\<rparr> # rows,
            gid', g2, ng2)))"

fun grades_for_assignments ::
  "(real \<Rightarrow> real) \<Rightarrow> assignment list \<Rightarrow> enrollment list \<Rightarrow> int \<Rightarrow> rng \<Rightarrow> nprng \<Rightarrow> grade list \<times> int \<times> rng \<times> nprng" where
  "grades_for_assignments fl [] enrollments gid g ng = ([], gid, g, ng)"
| "grades_for_assignments fl (a # as) enrollments gid g ng =
     (let enrolled_students =
            map enr_student_id (filter (\<lambda>e. enr_class_id e = class_id a) enrollments)
      in case grades_for_students fl a enrolled_students gid g ng of (rows, gid1, g1, ng1) \<Rightarrow>
           (case grades_for_assignments fl as enrollments gid1 g1 ng1 of (rows', gid2, g2, ng2) \<Rightarrow>
              (rows @ rows', gid2, g2, ng2)))"

definition generate_grades ::
  "(real \<Rightarrow> real) \<Rightarrow> assignment list \<Rightarrow> enrollment list \<Rightarrow> rng \<Rightarrow> nprng \<Rightarrow> grade list" where
  "generate_grades fl assignments_df enrollments_df g ng =
     fst (grades_for_assignments fl assignments_df enrollments_df 1 g ng)"

text \<open>
  The year body of \<^verbatim>\<open>generate_proper_grades\<close>: \<^verbatim>\<open>assignment_lookup\<close> is the dict
  built from the assignment rows (a later row with the same id wins), read with the
  default 100; every old grade row is replaced by a row with a fresh score.
\<close>

definition assignment_lookup :: "assignment list \<Rightarrow> (int \<times> int) list" where
  "assignment_lookup assignments_df =
     foldl (\<lambda>d a. AList.update (assignment_id a) (points_possible a) d) [] assignments_df"

definition lookup_points :: "(int \<times> int) list \<Rightarrow> int \<Rightarrow> int" where
  "lookup_points d aid = (case map_of d aid of Some p \<Rightarrow> p | None \<Rightarrow> 100)"

fun proper_grades_rows ::
  "(real \<Rightarrow> real) \<Rightarrow> (int \<times> int) list \<Rightarrow> grade list \<Rightarrow> rng \<Rightarrow> nprng \<Rightarrow> grade list" where
  "proper_grades_rows fl d [] g ng = []"
| "proper_grades_rows fl d (r # rs) g ng =
     (case proper_grade_score fl (lookup_points d (g_assignment_id r)) g ng of (sc, g1, ng1) \<Rightarrow>
        r\<lparr>score := sc\<rparr> # proper_grades_rows fl d rs g1 ng1)"

definition generate_proper_grades ::
  "(real \<Rightarrow> real) \<Rightarrow> grade list \<Rightarrow> assignment list \<Rightarrow> rng \<Rightarrow> nprng \<Rightarrow> grade list" where
  "generate_proper_grades fl grades_df assignments_df g ng =
     proper_grades_rows fl (assignment_lookup assignments_df) grades_df g ng"

section \<open>Python dictionaries, strings and errors\<close>

text \<open>
  A \<^verbatim>\<open>dict\<close> keeps its keys in insertion order: it is an association list with
  distinct keys. \<^verbatim>\<open>d[k] = v\<close> is \<^const>\<open>AList.update\<close> (an old key keeps its place, a
  new one goes to the end), \<^verbatim>\<open>del d[k]\<close> is \<^const>\<open>AList.delete\<close> once the key is known
  to be there, \<^verbatim>\<open>d.values()\<close> is \<open>map snd\<close> and \<^verbatim>\<open>k in d\<close> is membership in \<open>map fst\<close>.
\<close>

datatype py_error = KeyError | StopIteration | IndexError | ValueError

definition dict_values :: "('k \<times> 'v) list \<Rightarrow> 'v list" where
  "dict_values d = map snd d"

definition dict_keys :: "('k \<times> 'v) list \<Rightarrow> 'k list" where
  "dict_keys d = map fst d"

text \<open>\<^verbatim>\<open>del d[k]\<close>: a missing key raises \<^verbatim>\<open>KeyError\<close>.\<close>

definition dict_del :: "'k \<Rightarrow> ('k \<times> 'v) list \<Rightarrow> py_error + ('k \<times> 'v) list" where
  "dict_del k d = (if k \<in> set (dict_keys d) then Inr (AList.delete k d) else Inl KeyError)"

text \<open>\<^verbatim>\<open>str(n)\<close> for an integer, in decimal.\<close>

definition digit_char :: "nat \<Rightarrow> char" where
  "digit_char n = ''0123456789'' ! (n mod 10)"

fun str_nat :: "nat \<Rightarrow> string" where
  "str_nat n = (if n < 10 then [digit_char n] else str_nat (n div 10) @ [digit_char n])"

definition str_int :: "int \<Rightarrow> string" where
  "str_int i = (if i < 0 then CHR ''-'' # str_nat (nat (- i)) else str_nat (nat i))"

text \<open>
  \<^verbatim>\<open>random.choice(seq)\<close> is \<^verbatim>\<open>seq[randbelow(len(seq))]\<close>, and raises \<^verbatim>\<open>IndexError\<close>
  on an empty sequence.
\<close>

definition random_choice :: "'a list \<Rightarrow> rng \<Rightarrow> py_error + ('a \<times> rng)" where
  "random_choice seq g =
     (if seq = [] then Inl IndexError
      else case randbelow (length seq) g of (i, g') \<Rightarrow> Inr (seq ! i, g'))"

text \<open>
  Faker is library code: each call of one of its providers (\<^verbatim>\<open>first_name_male()\<close>,
  \<^verbatim>\<open>last_name()\<close>, \<^verbatim>\<open>email()\<close>, \<^verbatim>\<open>date_between(...)\<close> formatted by \<^verbatim>\<open>strftime\<close>, ...)
  returns the next string of the sequence that stands for it.
\<close>

type_synonym faker = "nat \<Rightarrow> string"

definition fake_next :: "faker \<Rightarrow> string \<times> faker" where
  "fake_next fk = (fk 0, rng_tail fk)"

section \<open>The student registry\<close>

text \<open>
  A student is a \<^verbatim>\<open>dict\<close> with the keys below. The keys \<^verbatim>\<open>graduation_year\<close> and
  \<^verbatim>\<open>transfer_year\<close> exist only in the copies stored in the graduated and transferred
  sets (\<open>None\<close>: the key is absent); \<^verbatim>\<open>is_transfer\<close> exists, with the value
  \<^verbatim>\<open>True\<close>, only on students who transferred in.
\<close>

record student =
  student_id :: int
  first_name :: string
  last_name :: string
  gender :: string
  date_of_birth :: string
  grade_level_id :: int
  enrollment_year :: int
  family_id :: string
  graduation_year :: "int option"
  transfer_year :: "int option"
  is_transfer :: bool

record student_registry =
  active_students :: "(int \<times> student) list"
  graduated_students :: "(int \<times> student) list"
  transferred_students :: "(int \<times> student) list"
  student_id_counter :: int

definition new_student_registry :: student_registry where
  "new_student_registry =
     \<lparr>active_students = [], graduated_students = [], transferred_students = [],
      student_id_counter = 1\<rparr>"

text \<open>
  \<^verbatim>\<open>load_baseline_students\<close>: a row of \<^verbatim>\<open>students.csv\<close> has the columns
  \<^verbatim>\<open>student_id, first_name, last_name, gender, date_of_birth, grade_level_id\<close>.
\<close>

record baseline_student =
  b_student_id :: int
  b_first_name :: string
  b_last_name :: string
  b_gender :: string
  b_date_of_birth :: string
  b_grade_level_id :: int

definition family_name :: "int \<Rightarrow> string" where
  "family_name sid = ''FAM'' @ str_int (sid div 3)"

fun load_baseline_students :: "student_registry \<Rightarrow> baseline_student list \<Rightarrow> student_registry" where
  "load_baseline_students reg [] = reg"
| "load_baseline_students reg (row # rows) =
     load_baseline_students
       (reg\<lparr>active_students :=
              AList.update (b_student_id row)
                \<lparr>student_id = b_student_id row, first_name = b_first_name row,
                 last_name = b_last_name row, gender = b_gender row,
                 date_of_birth = b_date_of_birth row, grade_level_id = b_grade_level_id row,
                 enrollment_year = 2015, family_id = family_name (b_student_id row),
                 graduation_year = None, transfer_year = None, is_transfer = False\<rparr>
                (active_students reg),
            student_id_counter := max (student_id_counter reg) (b_student_id row + 1)\<rparr>)
       rows"

text \<open>
  \<^verbatim>\<open>advance_grade_levels\<close>: the loop runs over a snapshot of the items of
  \<^verbatim>\<open>active_students\<close>. A student dict is one object, stored under its key and
  appended to the returned list: the assignment to \<^verbatim>\<open>student["grade_level_id"]\<close>
  changes the stored value, and the list holds the changed value.
\<close>

fun advance_loop ::
  "int \<Rightarrow> (int \<times> student) list \<Rightarrow> student_registry \<Rightarrow> student list \<Rightarrow> student list
     \<Rightarrow> student_registry \<times> student list \<times> student list" where
  "advance_loop year [] reg graduated advanced = (reg, graduated, advanced)"
| "advance_loop year ((sid, student) # items) reg graduated advanced =
     (let current_grade = grade_level_id student
      in if 13 \<le> current_grade then
           advance_loop year items
             (reg\<lparr>graduated_students :=
                    AList.update sid (student\<lparr>graduation_year := Some year\<rparr>)
                      (graduated_students reg),
                  active_students := AList.delete sid (active_students reg)\<rparr>)
             (graduated @ [student]) advanced
         else
           (let student' = student\<lparr>grade_level_id := current_grade + 1\<rparr>
            in advance_loop year items
                 (reg\<lparr>active_students := AList.update sid student' (active_students reg)\<rparr>)
                 graduated (advanced @ [student'])))"

definition advance_grade_levels ::
  "student_registry \<Rightarrow> int \<Rightarrow> student_registry \<times> student list \<times> student list" where
  "advance_grade_levels reg year = advance_loop year (active_students reg) reg [] []"

text \<open>
  \<^verbatim>\<open>enroll_new_kindergarteners\<close>. \<open>first_with_family\<close> is the \<^verbatim>\<open>next(...)\<close> over the
  active students; \<open>enroll_one\<close> is one pass of the loop body and \<open>enroll_loop\<close> the
  \<^verbatim>\<open>for _ in range(count)\<close>.
\<close>

fun first_with_family :: "string \<Rightarrow> student list \<Rightarrow> py_error + student" where
  "first_with_family fid [] = Inl StopIteration"
| "first_with_family fid (s # ss) = (if family_id s = fid then Inr s else first_with_family fid ss)"

definition kindergarten_family ::
  "student_registry \<Rightarrow> rng \<Rightarrow> faker \<Rightarrow> py_error + (string \<times> string \<times> rng \<times> faker)" where
  "kindergarten_family reg g fk =
     (case random_random g of (r, g1) \<Rightarrow>
        if r < d0_20 then
          (let existing_families = map family_id (dict_values (active_students reg))
           in if existing_families \<noteq> [] then
                (case random_choice existing_families g1 of
                   Inl e \<Rightarrow> Inl e
                 | Inr (fid, g2) \<Rightarrow>
                     (case first_with_family fid (dict_values (active_students reg)) of
                        Inl e \<Rightarrow> Inl e
                      | Inr sibling \<Rightarrow> Inr (fid, last_name sibling, g2, fk)))
              else
                (case fake_next fk of (lname, fk1) \<Rightarrow>
                   Inr (family_name (student_id_counter reg), lname, g1, fk1)))
        else
          (case fake_next fk of (lname, fk1) \<Rightarrow>
             Inr (family_name (student_id_counter reg), lname, g1, fk1)))"

definition enroll_one ::
  "int \<Rightarrow> student_registry \<Rightarrow> rng \<Rightarrow> faker
     \<Rightarrow> py_error + (student_registry \<times> student \<times> rng \<times> faker)" where
  "enroll_one year reg g fk =
     (case fake_next fk of (birth_date, fk1) \<Rightarrow>
      case random_choice [''M'', ''F''] g of
        Inl e \<Rightarrow> Inl e
      | Inr (gen, g1) \<Rightarrow>
          (case fake_next fk1 of (fname, fk2) \<Rightarrow>
           case kindergarten_family reg g1 fk2 of
             Inl e \<Rightarrow> Inl e
           | Inr (fid, lname, g2, fk3) \<Rightarrow>
               (let student =
                      \<lparr>student_id = student_id_counter reg, first_name = fname,
                       last_name = lname, gender = gen, date_of_birth = birth_date,
                       grade_level_id = 1, enrollment_year = year, family_id = fid,
                       graduation_year = None, transfer_year = None, is_transfer = False\<rparr>
                in Inr (reg\<lparr>active_students :=
                               AList.update (student_id_counter reg) student (active_students reg),
                             student_id_counter := student_id_counter reg + 1\<rparr>,
                        student, g2, fk3))))"

fun enroll_loop ::
  "int \<Rightarrow> nat \<Rightarrow> student_registry \<Rightarrow> student list \<Rightarrow> rng \<Rightarrow> faker
     \<Rightarrow> py_error + (student_registry \<times> student list \<times> rng \<times> faker)" where
  "enroll_loop year 0 reg new_students g fk = Inr (reg, new_students, g, fk)"
| "enroll_loop year (Suc n) reg new_students g fk =
     (case enroll_one year reg g fk of
        Inl e \<Rightarrow> Inl e
      | Inr (reg1, student, g1, fk1) \<Rightarrow>
          enroll_loop year n reg1 (new_students @ [student]) g1 fk1)"

definition enroll_new_kindergarteners ::
  "student_registry \<Rightarrow> int \<Rightarrow> int \<Rightarrow> rng \<Rightarrow> faker
     \<Rightarrow> py_error + (student_registry \<times> student list \<times> rng \<times> faker)" where
  "enroll_new_kindergarteners reg year count g fk = enroll_loop year (nat count) reg [] g fk"

text \<open>The number of students of a dict that are at a given grade level.\<close>

definition grade_count :: "int \<Rightarrow> (int \<times> student) list \<Rightarrow> nat" where
  "grade_count gl d = length (filter (\<lambda>p. grade_level_id (snd p) = gl) d)"

section \<open>The guardian registry\<close>

text \<open>
  The keys of \<^verbatim>\<open>student_guardians\<close> are of two kinds: the integer \<^verbatim>\<open>student_id\<close>,
  and, for the two relationships of a two-parent family, the strings
  \<^verbatim>\<open>f"{student_id}_1"\<close> and \<^verbatim>\<open>f"{student_id}_2"\<close>. An integer and a string are never
  equal keys.
\<close>

datatype sg_key = IntKey int | StrKey string

record guardian =
  guardian_id :: int
  gd_first_name :: string
  gd_last_name :: string
  email :: string
  phone :: string

record relationship =
  r_student_id :: int
  r_guardian_id :: int
  guardian_type_id :: int
  r_family_id :: string

record guardian_registry =
  guardians :: "(int \<times> guardian) list"
  student_guardians :: "(sg_key \<times> relationship) list"
  guardian_id_counter :: int
  transferred_guardians :: "(int \<times> guardian) list"

definition new_guardian_registry :: guardian_registry where
  "new_guardian_registry =
     \<lparr>guardians = [], student_guardians = [], guardian_id_counter = 1,
      transferred_guardians = []\<rparr>"

text \<open>
  \<^verbatim>\<open>remove_student_guardians\<close>. The list of the student's relationships is computed
  once, before the loop; \<open>remove_loop\<close> is the loop over it. In the loop body
  \<^verbatim>\<open>other_students\<close> is computed from the current \<^verbatim>\<open>student_guardians\<close>, and the
  last statement deletes the entry under the integer key \<^verbatim>\<open>student_id\<close>, when there
  is one.
\<close>

fun remove_loop :: "int \<Rightarrow> relationship list \<Rightarrow> guardian_registry \<Rightarrow> guardian_registry" where
  "remove_loop sid [] reg = reg"
| "remove_loop sid (rel # rels) reg =
     (let gid = r_guardian_id rel;
          other_students =
            filter (\<lambda>sg. r_guardian_id sg = gid \<and> r_student_id sg \<noteq> sid)
              (dict_values (student_guardians reg));
          reg1 =
            (if other_students = [] then
               (case map_of (guardians reg) gid of
                  Some gd \<Rightarrow>
                    reg\<lparr>transferred_guardians := AList.update gid gd (transferred_guardians reg),
                        guardians := AList.delete gid (guardians reg)\<rparr>
                | None \<Rightarrow> reg)
             else reg);
          reg2 =
            (if IntKey sid \<in> set (dict_keys (student_guardians reg1)) then
               reg1\<lparr>student_guardians := AList.delete (IntKey sid) (student_guardians reg1)\<rparr>
             else reg1)
      in remove_loop sid rels reg2)"

definition remove_student_guardians :: "guardian_registry \<Rightarrow> int \<Rightarrow> guardian_registry" where
  "remove_student_guardians reg sid =
     remove_loop sid
       (filter (\<lambda>sg. r_student_id sg = sid) (dict_values (student_guardians reg))) reg"

text \<open>
  \<^verbatim>\<open>generate_guardians_for_students\<close>. The source builds a guardian and its
  relationship in four places with the same statements; \<open>add_guardian\<close> is that block:
  the guardian gets the id \<^verbatim>\<open>guardian_id_counter\<close>, is stored in \<^verbatim>\<open>guardians\<close>, the
  relationship is stored in \<^verbatim>\<open>student_guardians\<close> under the given key, and the counter
  is incremented. For a parent the last name is the student's and Faker is called for
  the first name, the email and the phone; for a non-parent guardian Faker is called
  for the first name, the last name, the email and the phone, in this order.
\<close>

definition add_guardian ::
  "guardian_registry \<Rightarrow> sg_key \<Rightarrow> int \<Rightarrow> string \<Rightarrow> int \<Rightarrow> string option \<Rightarrow> faker
     \<Rightarrow> guardian_registry \<times> guardian \<times> relationship \<times> faker" where
  "add_guardian reg key sid fid type_id parent_last_name fk =
     (case fake_next fk of (fname, fk1) \<Rightarrow>
      case (case parent_last_name of
              Some l \<Rightarrow> (l, fk1)
            | None \<Rightarrow> fake_next fk1) of (lname, fk2) \<Rightarrow>
      case fake_next fk2 of (em, fk3) \<Rightarrow>
      case fake_next fk3 of (ph, fk4) \<Rightarrow>
        (let gd = \<lparr>guardian_id = guardian_id_counter reg, gd_first_name = fname,
                   gd_last_name = lname, email = em, phone = ph\<rparr>;
             rel = \<lparr>r_student_id = sid, r_guardian_id = guardian_id_counter reg,
                    guardian_type_id = type_id, r_family_id = fid\<rparr>
         in (reg\<lparr>guardians := AList.update (guardian_id_counter reg) gd (guardians reg),
                 student_guardians := AList.update key rel (student_guardians reg),
                 guardian_id_counter := guardian_id_counter reg + 1\<rparr>,
             gd, rel, fk4)))"

text \<open>
  The sibling branch: one new relationship for every existing relationship of the
  family, each appended to the returned list and each stored under the same key
  \<^verbatim>\<open>student_id\<close>.
\<close>

fun reuse_family_guardians ::
  "int \<Rightarrow> string \<Rightarrow> relationship list \<Rightarrow> guardian_registry \<Rightarrow> relationship list
     \<Rightarrow> guardian_registry \<times> relationship list" where
  "reuse_family_guardians sid fid [] reg new_sgs = (reg, new_sgs)"
| "reuse_family_guardians sid fid (existing_sg # rest) reg new_sgs =
     (let new_relationship =
            \<lparr>r_student_id = sid, r_guardian_id = r_guardian_id existing_sg,
             guardian_type_id = guardian_type_id existing_sg, r_family_id = fid\<rparr>
      in reuse_family_guardians sid fid rest
           (reg\<lparr>student_guardians :=
                  AList.update (IntKey sid) new_relationship (student_guardians reg)\<rparr>)
           (new_sgs @ [new_relationship]))"

text \<open>One pass of the loop over the students: \<open>guardians_for_student\<close>.\<close>

definition guardians_for_student ::
  "student \<Rightarrow> guardian_registry \<Rightarrow> guardian list \<Rightarrow> relationship list \<Rightarrow> rng \<Rightarrow> faker
     \<Rightarrow> py_error + (guardian_registry \<times> guardian list \<times> relationship list \<times> rng \<times> faker)" where
  "guardians_for_student st reg new_gds new_sgs g fk =
     (let sid = student_id st; student_last_name = last_name st; fid = family_id st
      in if IntKey sid \<in> set (dict_keys (student_guardians reg)) then
           Inr (reg, new_gds, new_sgs, g, fk)
         else
           (let existing_family_guardians =
                  filter (\<lambda>sg. r_family_id sg = fid) (dict_values (student_guardians reg))
            in if existing_family_guardians \<noteq> [] then
                 (case reuse_family_guardians sid fid existing_family_guardians reg new_sgs of
                    (reg1, new_sgs1) \<Rightarrow> Inr (reg1, new_gds, new_sgs1, g, fk))
               else
                 (case random_random g of (r1, g1) \<Rightarrow>
                    if r1 < d0_65 then
                      (case random_random g1 of (rand, g2) \<Rightarrow>
                         if rand < d0_60 then
                           (case add_guardian reg (StrKey (str_int sid @ ''_1'')) sid fid 1
                                   (Some student_last_name) fk of
                              (reg1, mother, mother_rel, fk1) \<Rightarrow>
                            case add_guardian reg1 (StrKey (str_int sid @ ''_2'')) sid fid 2
                                   (Some student_last_name) fk1 of
                              (reg2, father, father_rel, fk2) \<Rightarrow>
                                Inr (reg2, new_gds @ [mother, father],
                                     new_sgs @ [mother_rel, father_rel], g2, fk2))
                         else if rand < d0_95 then
                           (case add_guardian reg (IntKey sid) sid fid 1
                                   (Some student_last_name) fk of
                              (reg1, mother, mother_rel, fk1) \<Rightarrow>
                                Inr (reg1, new_gds @ [mother], new_sgs @ [mother_rel], g2, fk1))
                         else
                           (case add_guardian reg (IntKey sid) sid fid 2
                                   (Some student_last_name) fk of
                              (reg1, father, father_rel, fk1) \<Rightarrow>
                                Inr (reg1, new_gds @ [father], new_sgs @ [father_rel], g2, fk1)))
                    else
                      (case random_choice [5, 6, 7, 8, 9, 10] g1 of
                         Inl e \<Rightarrow> Inl e
                       | Inr (type_id, g2) \<Rightarrow>
                           (case add_guardian reg (IntKey sid) sid fid type_id None fk of
                              (reg1, gd, rel, fk1) \<Rightarrow>
                                Inr (reg1, new_gds @ [gd], new_sgs @ [rel], g2, fk1))))))"

fun guardians_loop ::
  "student list \<Rightarrow> guardian_registry \<Rightarrow> guardian list \<Rightarrow> relationship list \<Rightarrow> rng \<Rightarrow> faker
     \<Rightarrow> py_error + (guardian_registry \<times> guardian list \<times> relationship list \<times> rng \<times> faker)" where
  "guardians_loop [] reg new_gds new_sgs g fk = Inr (reg, new_gds, new_sgs, g, fk)"
| "guardians_loop (st # sts) reg new_gds new_sgs g fk =
     (case guardians_for_student st reg new_gds new_sgs g fk of
        Inl e \<Rightarrow> Inl e
      | Inr (reg1, new_gds1, new_sgs1, g1, fk1) \<Rightarrow>
          guardians_loop sts reg1 new_gds1 new_sgs1 g1 fk1)"

definition generate_guardians_for_students ::
  "guardian_registry \<Rightarrow> student list \<Rightarrow> rng \<Rightarrow> faker
     \<Rightarrow> py_error + (guardian_registry \<times> guardian list \<times> relationship list \<times> rng \<times> faker)" where
  "generate_guardians_for_students reg students g fk = guardians_loop students reg [] [] g fk"

text \<open>The guardian ids related to a student in \<^verbatim>\<open>student_guardians\<close>, in dict order.\<close>

definition guardian_ids_of :: "guardian_registry \<Rightarrow> int \<Rightarrow> int list" where
  "guardian_ids_of reg sid =
     map r_guardian_id (filter (\<lambda>sg. r_student_id sg = sid) (dict_values (student_guardians reg)))"

section \<open>The teacher registry\<close>

text \<open>
  \<^verbatim>\<open>random.randint(a, b)\<close> is \<^verbatim>\<open>a + randbelow(b - a + 1)\<close>.
\<close>

definition random_randint :: "int \<Rightarrow> int \<Rightarrow> rng \<Rightarrow> int \<times> rng" where
  "random_randint a b g = (case randbelow (nat (b - a + 1)) g of (i, g') \<Rightarrow> (a + int i, g'))"

text \<open>
  \<^verbatim>\<open>random.choices(population, weights)[0]\<close>: \<^verbatim>\<open>cum_weights\<close> are the running sums
  of the weights (the first weight, then float sums), \<^verbatim>\<open>total\<close> is the last of them
  plus \<^verbatim>\<open>0.0\<close>, and the element returned is the one at the index
  \<^verbatim>\<open>bisect(cum_weights, random() * total, 0, n - 1)\<close>. For weights that are not negative
  the running sums are sorted, and the index is the number of leading sums, among the
  first \<open>n - 1\<close>, that are at most \<^verbatim>\<open>random() * total\<close>. Where two weights are
  integers the source adds them exactly; their rounded sum is the same below \<open>2\<^sup>5\<^sup>3\<close>.
\<close>

fun accumulate :: "(real \<Rightarrow> real) \<Rightarrow> real \<Rightarrow> real list \<Rightarrow> real list" where
  "accumulate fl acc [] = []"
| "accumulate fl acc (w # ws) = fl (acc + w) # accumulate fl (fl (acc + w)) ws"

fun cum_weights_of :: "(real \<Rightarrow> real) \<Rightarrow> real list \<Rightarrow> real list" where
  "cum_weights_of fl [] = []"
| "cum_weights_of fl (w # ws) = w # accumulate fl w ws"

definition random_choices ::
  "(real \<Rightarrow> real) \<Rightarrow> 'a list \<Rightarrow> real list \<Rightarrow> rng \<Rightarrow> py_error + ('a \<times> rng)" where
  "random_choices fl population weights g =
     (if length weights \<noteq> length population then Inl ValueError
      else if population = [] then Inl IndexError
      else
        (let cum_weights = cum_weights_of fl weights; total = fl (last cum_weights + 0)
         in if total \<le> 0 then Inl ValueError
            else
              (case random_random g of (u, g') \<Rightarrow>
                 Inr (population
                        ! length (takeWhile (\<lambda>c. c \<le> fl (u * total)) (butlast cum_weights)),
                      g'))))"

text \<open>
  A teacher is a \<^verbatim>\<open>dict\<close>; the keys \<^verbatim>\<open>retirement_year\<close> and \<^verbatim>\<open>departure_year\<close> exist
  only in the copies stored in the retired and former sets.
\<close>

record teacher =
  teacher_id :: int
  t_first_name :: string
  t_last_name :: string
  department_id :: int
  hire_year :: int
  years_experience :: int
  position_level :: string
  retirement_year :: "int option"
  departure_year :: "int option"

record teacher_registry =
  active_teachers :: "(int \<times> teacher) list"
  retired_teachers :: "(int \<times> teacher) list"
  former_teachers :: "(int \<times> teacher) list"
  teacher_id_counter :: int

definition new_teacher_registry :: teacher_registry where
  "new_teacher_registry =
     \<lparr>active_teachers = [], retired_teachers = [], former_teachers = [],
      teacher_id_counter = 1\<rparr>"

text \<open>
  \<^verbatim>\<open>load_baseline_teachers\<close>: a row of \<^verbatim>\<open>teachers.csv\<close> has the columns
  \<^verbatim>\<open>teacher_id, first_name, last_name, department_id\<close>.
\<close>

record baseline_teacher =
  bt_teacher_id :: int
  bt_first_name :: string
  bt_last_name :: string
  bt_department_id :: int

fun load_baseline_teachers ::
  "teacher_registry \<Rightarrow> baseline_teacher list \<Rightarrow> rng \<Rightarrow> py_error + (teacher_registry \<times> rng)" where
  "load_baseline_teachers reg [] g = Inr (reg, g)"
| "load_baseline_teachers reg (row # rows) g =
     (case random_randint 2005 2015 g of (hy, g1) \<Rightarrow>
      case random_randint 1 20 g1 of (ye, g2) \<Rightarrow>
      case random_choice [''Teacher'', ''Senior Teacher'', ''Department Head''] g2 of
        Inl e \<Rightarrow> Inl e
      | Inr (pl, g3) \<Rightarrow>
          load_baseline_teachers
            (reg\<lparr>active_teachers :=
                   AList.update (bt_teacher_id row)
                     \<lparr>teacher_id = bt_teacher_id row, t_first_name = bt_first_name row,
                      t_last_name = bt_last_name row, department_id = bt_department_id row,
                      hire_year = hy, years_experience = ye, position_level = pl,
                      retirement_year = None, departure_year = None\<rparr>
                     (active_teachers reg),
                 teacher_id_counter := max (teacher_id_counter reg) (bt_teacher_id row + 1)\<rparr>)
            rows g3)"

text \<open>
  \<^verbatim>\<open>_assess_department_needs\<close>: \<^verbatim>\<open>department_counts\<close> counts the active teachers of
  each department; the weight of each of the departments 1 to 9 is
  \<^verbatim>\<open>max(1, total_teachers / 9 - current_count)\<close>, a float quotient and a float
  difference.
\<close>

definition department_counts :: "teacher list \<Rightarrow> (int \<times> int) list" where
  "department_counts ts =
     foldl (\<lambda>d t. AList.update (department_id t)
                     ((case map_of d (department_id t) of Some c \<Rightarrow> c | None \<Rightarrow> 0) + 1) d)
       [] ts"

definition assess_department_needs ::
  "(real \<Rightarrow> real) \<Rightarrow> teacher_registry \<Rightarrow> (int \<times> real) list" where
  "assess_department_needs fl reg =
     (let counts = department_counts (dict_values (active_teachers reg));
          total_teachers = sum_list (dict_values counts)
      in map (\<lambda>dept_id.
                (let current_count = (case map_of counts dept_id of Some c \<Rightarrow> c | None \<Rightarrow> 0);
                     ideal_count = fl (real_of_int total_teachers / 9);
                     need_factor = max 1 (fl (ideal_count - fl (real_of_int current_count)))
                 in (dept_id, need_factor)))
           [1, 2, 3, 4, 5, 6, 7, 8, 9])"

text \<open>
  \<^verbatim>\<open>process_annual_changes\<close>. \<open>departures_loop\<close> is the loop over the first
  \<^verbatim>\<open>min(expected_departures, len(departure_candidates))\<close> candidates (the draw of
  \<^verbatim>\<open>random.random()\<close> happens only for a teacher with less than 25 years);
  \<open>hires_loop\<close> is the loop \<^verbatim>\<open>for _ in range(max(0, new_hire_count))\<close>. The number
  \<^verbatim>\<open>expected_departures\<close> is \<^verbatim>\<open>int\<close> of the float product of the count, converted
  to a float, and the rate, itself a float. The last loop adds
  one year to every active teacher; a new hire is the same object in \<^verbatim>\<open>active_teachers\<close>
  and in the returned list \<^verbatim>\<open>new_hires\<close>, so the returned list holds the aged values.
\<close>

fun departures_loop ::
  "int \<Rightarrow> teacher list \<Rightarrow> teacher_registry \<Rightarrow> teacher list \<Rightarrow> teacher list \<Rightarrow> rng
     \<Rightarrow> py_error + (teacher_registry \<times> teacher list \<times> teacher list \<times> rng)" where
  "departures_loop year [] reg retirements resignations g = Inr (reg, retirements, resignations, g)"
| "departures_loop year (t # ts) reg retirements resignations g =
     (case (if 25 \<le> years_experience t then (True, g)
            else (case random_random g of (r, g') \<Rightarrow> (r < d0_3, g'))) of
        (retires, g1) \<Rightarrow>
          (case (if retires then
                   (reg\<lparr>retired_teachers :=
                          AList.update (teacher_id t) (t\<lparr>retirement_year := Some year\<rparr>)
                            (retired_teachers reg)\<rparr>,
                    retirements @ [t], resignations)
                 else
                   (reg\<lparr>former_teachers :=
                          AList.update (teacher_id t) (t\<lparr>departure_year := Some year\<rparr>)
                            (former_teachers reg)\<rparr>,
                    retirements, resignations @ [t])) of
             (reg1, retirements1, resignations1) \<Rightarrow>
               (case dict_del (teacher_id t) (active_teachers reg1) of
                  Inl e \<Rightarrow> Inl e
                | Inr act \<Rightarrow>
                    departures_loop year ts (reg1\<lparr>active_teachers := act\<rparr>)
                      retirements1 resignations1 g1)))"

fun hires_loop ::
  "(real \<Rightarrow> real) \<Rightarrow> int \<Rightarrow> nat \<Rightarrow> (int \<times> real) list \<Rightarrow> teacher_registry \<Rightarrow> teacher list \<Rightarrow> rng \<Rightarrow> faker
     \<Rightarrow> py_error + (teacher_registry \<times> teacher list \<times> rng \<times> faker)" where
  "hires_loop fl year 0 department_needs reg new_hires g fk = Inr (reg, new_hires, g, fk)"
| "hires_loop fl year (Suc n) department_needs reg new_hires g fk =
     (case random_choices fl (dict_keys department_needs) (dict_values department_needs) g of
        Inl e \<Rightarrow> Inl e
      | Inr (dept, g1) \<Rightarrow>
          (case random_choice [''M'', ''F''] g1 of
             Inl e \<Rightarrow> Inl e
           | Inr (gen, g2) \<Rightarrow>
               (case fake_next fk of (fname, fk1) \<Rightarrow>
                case fake_next fk1 of (lname, fk2) \<Rightarrow>
                case random_randint 0 5 g2 of (ye, g3) \<Rightarrow>
                  (let t = \<lparr>teacher_id = teacher_id_counter reg, t_first_name = fname,
                            t_last_name = lname, department_id = dept, hire_year = year,
                            years_experience = ye, position_level = ''Teacher'',
                            retirement_year = None, departure_year = None\<rparr>
                   in hires_loop fl year n department_needs
                        (reg\<lparr>active_teachers :=
                               AList.update (teacher_id_counter reg) t (active_teachers reg),
                             teacher_id_counter := teacher_id_counter reg + 1\<rparr>)
                        (new_hires @ [t]) g3 fk2))))"

definition age_teacher :: "teacher \<Rightarrow> teacher" where
  "age_teacher t = t\<lparr>years_experience := years_experience t + 1\<rparr>"

definition process_annual_changes ::
  "(real \<Rightarrow> real) \<Rightarrow> teacher_registry \<Rightarrow> int \<Rightarrow> int \<Rightarrow> real \<Rightarrow> rng \<Rightarrow> faker
     \<Rightarrow> py_error + (teacher_registry \<times> teacher list \<times> teacher list \<times> teacher list \<times> rng \<times> faker)" where
  "process_annual_changes fl reg year target_teacher_count turnover_rate g fk =
     (let current_count = int (length (active_teachers reg));
          expected_departures = py_int (fl (fl (real_of_int current_count) * turnover_rate));
          departure_candidates =
            sort_key (\<lambda>t. - years_experience t) (dict_values (active_teachers reg))
      in case departures_loop year
                (take (nat (min expected_departures (int (length departure_candidates))))
                   departure_candidates)
                reg [] [] g of
           Inl e \<Rightarrow> Inl e
         | Inr (reg1, retirements, resignations, g1) \<Rightarrow>
             (let new_hire_count = target_teacher_count - int (length (active_teachers reg1));
                  department_needs = assess_department_needs fl reg1
              in case hires_loop fl year (nat (max 0 new_hire_count)) department_needs reg1 [] g1 fk of
                   Inl e \<Rightarrow> Inl e
                 | Inr (reg2, new_hires, g2, fk2) \<Rightarrow>
                     Inr (reg2\<lparr>active_teachers :=
                                map (\<lambda>p. (fst p, age_teacher (snd p))) (active_teachers reg2)\<rparr>,
                          retirements, resignations, map age_teacher new_hires, g2, fk2)))"

section \<open>The school calendar\<close>

text \<open>
  A \<^verbatim>\<open>datetime.date\<close> is the triple (year, month, day); dates compare like these
  triples. \<^verbatim>\<open>date.weekday()\<close> is \<^verbatim>\<open>(toordinal() + 6) % 7\<close> (Monday is 0), where the
  ordinal is the number of days before the year, plus the days before the month, plus the
  day; \<^verbatim>\<open>date + timedelta(days=1)\<close> is the next day of the calendar. A school day is
  kept as the date itself: the string \<^verbatim>\<open>strftime("%Y-%m-%d")\<close> that the source stores
  is one-to-one on dates with a four-digit year.
\<close>

type_synonym date = "int \<times> int \<times> int"

definition is_leap :: "int \<Rightarrow> bool" where
  "is_leap y = (y mod 4 = 0 \<and> (y mod 100 \<noteq> 0 \<or> y mod 400 = 0))"

definition days_in_month :: "int \<Rightarrow> int \<Rightarrow> int" where
  "days_in_month y m =
     (if m = 2 then (if is_leap y then 29 else 28)
      else if m = 4 \<or> m = 6 \<or> m = 9 \<or> m = 11 then 30 else 31)"

definition days_before_year :: "int \<Rightarrow> int" where
  "days_before_year y = (y - 1) * 365 + (y - 1) div 4 - (y - 1) div 100 + (y - 1) div 400"

definition days_before_month :: "int \<Rightarrow> int \<Rightarrow> int" where
  "days_before_month y m =
     [0, 0, 31, 59, 90, 120, 151, 181, 212, 243, 273, 304, 334] ! nat m
       + (if 2 < m \<and> is_leap y then 1 else 0)"

fun toordinal :: "date \<Rightarrow> int" where
  "toordinal (y, m, d) = days_before_year y + days_before_month y m + d"

definition weekday :: "date \<Rightarrow> int" where
  "weekday dt = (toordinal dt + 6) mod 7"

fun next_day :: "date \<Rightarrow> date" where
  "next_day (y, m, d) =
     (if d < days_in_month y m then (y, m, d + 1)
      else if m < 12 then (y, m + 1, 1)
      else (y + 1, 1, 1))"

fun date_le :: "date \<Rightarrow> date \<Rightarrow> bool" where
  "date_le (y1, m1, d1) (y2, m2, d2) =
     (y1 < y2 \<or> (y1 = y2 \<and> (m1 < m2 \<or> (m1 = m2 \<and> d1 \<le> d2))))"

text \<open>
  \<^verbatim>\<open>_is_holiday\<close>: the three periods are built from the year of the date that is
  checked.
\<close>

definition is_holiday :: "date \<Rightarrow> bool" where
  "is_holiday check_date =
     (let y = fst check_date;
          holiday_periods =
            [((y, 11, 25), (y, 11, 29)),
             ((y, 12, 23), (y + 1, 1, 3)),
             ((y + 1, 3, 15), (y + 1, 3, 22))]
      in list_ex (\<lambda>p. date_le (fst p) check_date \<and> date_le check_date (snd p)) holiday_periods)"

text \<open>
  \<^verbatim>\<open>_get_school_days\<close> of \<^verbatim>\<open>complete_decade_generator.py\<close>: the loop runs while the
  current date is not after June 6 and fewer than 180 days have been collected.
\<close>

function school_days_loop :: "date \<Rightarrow> date \<Rightarrow> date list \<Rightarrow> date list" where
  "school_days_loop current_date end_date school_days =
     (if date_le current_date end_date \<and> length school_days < 180 then
        school_days_loop (next_day current_date) end_date
          (if weekday current_date < 5 then
             (if \<not> is_holiday current_date then school_days @ [current_date] else school_days)
           else school_days)
      else school_days)"
  by pat_completeness auto
termination
proof (relation "measures [\<lambda>(c, e, s). nat (fst e + 1 - fst c),
                           \<lambda>(c, e, s). nat (13 - fst (snd c)),
                           \<lambda>(c, e, s). nat (32 - snd (snd c))]")
  show "wf (measures [\<lambda>(c, e, s). nat (fst e + 1 - fst c),
                       \<lambda>(c, e, s). nat (13 - fst (snd c)),
                       \<lambda>(c, e, s). nat (32 - snd (snd c))])"
    by simp
next
  fix current_date end_date :: date and school_days :: "date list"
  assume a: "date_le current_date end_date \<and> length school_days < 180"
  obtain y m d where c: "current_date = (y, m, d)" by (cases current_date)
  obtain ey em ed where e: "end_date = (ey, em, ed)" by (cases end_date)
  have le: "y \<le> ey" using a c e by auto
  have dim: "days_in_month y m \<le> 31" by (simp add: days_in_month_def)
  show "((next_day current_date, end_date,
          if weekday current_date < 5
          then if \<not> is_holiday current_date then school_days @ [current_date] else school_days
          else school_days),
         current_date, end_date, school_days)
        \<in> measures [\<lambda>(c, e, s). nat (fst e + 1 - fst c),
                     \<lambda>(c, e, s). nat (13 - fst (snd c)),
                     \<lambda>(c, e, s). nat (32 - snd (snd c))]"
    using le dim by (auto simp add: c e)
qed

text \<open>
  \<^verbatim>\<open>date(y, m, d)\<close> raises \<^verbatim>\<open>ValueError\<close> for a year outside 1 to 9999. The function
  builds \<^verbatim>\<open>date(year, 8, 26)\<close> and \<^verbatim>\<open>date(year + 1, 6, 6)\<close>, and \<^verbatim>\<open>_is_holiday\<close> builds
  \<^verbatim>\<open>date(y + 1, 1, 3)\<close> for the year \<open>y\<close> of each weekday that it checks, the first of
  them in August of \<open>year\<close>, the last in \<open>year + 1\<close>: the function returns for the years
  1 to 9997 and raises for every other.
\<close>

definition get_school_days :: "int \<Rightarrow> py_error + date list" where
  "get_school_days year =
     (if year < 1 \<or> 9997 < year then Inl ValueError
      else Inr (school_days_loop (year, 8, 26) (year + 1, 6, 6) []))"

text \<open>
  \<^verbatim>\<open>_get_school_days\<close> of \<^verbatim>\<open>decade_generator.py\<close>: the loop runs to June 6, and the
  first 180 days collected are returned.
\<close>

function all_school_days_loop :: "date \<Rightarrow> date \<Rightarrow> date list \<Rightarrow> date list" where
  "all_school_days_loop current_date end_date school_days =
     (if date_le current_date end_date then
        all_school_days_loop (next_day current_date) end_date
          (if weekday current_date < 5 then
             (if \<not> is_holiday current_date then school_days @ [current_date] else school_days)
           else school_days)
      else school_days)"
  by pat_completeness auto
termination
proof (relation "measures [\<lambda>(c, e, s). nat (fst e + 1 - fst c),
                           \<lambda>(c, e, s). nat (13 - fst (snd c)),
                           \<lambda>(c, e, s). nat (32 - snd (snd c))]")
  show "wf (measures [\<lambda>(c, e, s). nat (fst e + 1 - fst c),
                       \<lambda>(c, e, s). nat (13 - fst (snd c)),
                       \<lambda>(c, e, s). nat (32 - snd (snd c))])"
    by simp
next
  fix current_date end_date :: date and school_days :: "date list"
  assume a: "date_le current_date end_date"
  obtain y m d where c: "current_date = (y, m, d)" by (cases current_date)
  obtain ey em ed where e: "end_date = (ey, em, ed)" by (cases end_date)
  have le: "y \<le> ey" using a c e by auto
  have dim: "days_in_month y m \<le> 31" by (simp add: days_in_month_def)
  show "((next_day current_date, end_date,
          if weekday current_date < 5
          then if \<not> is_holiday current_date then school_days @ [current_date] else school_days
          else school_days),
         current_date, end_date, school_days)
        \<in> measures [\<lambda>(c, e, s). nat (fst e + 1 - fst c),
                     \<lambda>(c, e, s). nat (13 - fst (snd c)),
                     \<lambda>(c, e, s). nat (32 - snd (snd c))]"
    using le dim by (auto simp add: c e)
qed

definition get_school_days_decade :: "int \<Rightarrow> py_error + date list" where
  "get_school_days_decade year =
     (if year < 1 \<or> 9997 < year then Inl ValueError
      else Inr (take 180 (all_school_days_loop (year, 8, 26) (year + 1, 6, 6) [])))"

text \<open>
  A date of the calendar, and the number of school days that the capped loop has
  collected when it stops: \<open>school_days_count\<close> runs the same loop on the length of the
  list only. Both serve the proofs about \<open>school_days_loop\<close>.
\<close>

fun valid_date :: "date \<Rightarrow> bool" where
  "valid_date (y, m, d) = (1 \<le> m \<and> m \<le> 12 \<and> 1 \<le> d \<and> d \<le> days_in_month y m)"

function school_days_count :: "date \<Rightarrow> date \<Rightarrow> int \<Rightarrow> int" where
  "school_days_count current_date end_date n =
     (if date_le current_date end_date \<and> n < 180 then
        school_days_count (next_day current_date) end_date
          (if weekday current_date < 5 then
             (if \<not> is_holiday current_date then n + 1 else n)
           else n)
      else n)"
  by pat_completeness auto
termination
proof (relation "measures [\<lambda>(c, e, s). nat (fst e + 1 - fst c),
                           \<lambda>(c, e, s). nat (13 - fst (snd c)),
                           \<lambda>(c, e, s). nat (32 - snd (snd c))]")
  show "wf (measures [\<lambda>(c, e, s::int). nat (fst e + 1 - fst c),
                       \<lambda>(c, e, s). nat (13 - fst (snd c)),
                       \<lambda>(c, e, s). nat (32 - snd (snd c))])"
    by simp
next
  fix current_date end_date :: date and n :: int
  assume a: "date_le current_date end_date \<and> n < 180"
  obtain y m d where c: "current_date = (y, m, d)" by (cases current_date)
  obtain ey em ed where e: "end_date = (ey, em, ed)" by (cases end_date)
  have le: "y \<le> ey" using a c e by auto
  have dim: "days_in_month y m \<le> 31" by (simp add: days_in_month_def)
  show "((next_day current_date, end_date,
          if weekday current_date < 5
          then if \<not> is_holiday current_date then n + 1 else n
          else n),
         current_date, end_date, n)
        \<in> measures [\<lambda>(c, e, s). nat (fst e + 1 - fst c),
                     \<lambda>(c, e, s). nat (13 - fst (snd c)),
                     \<lambda>(c, e, s). nat (32 - snd (snd c))]"
    using le dim by (auto simp add: c e)
qed

declare school_days_loop.simps [simp del]
declare all_school_days_loop.simps [simp del]
declare school_days_count.simps [simp del]

section \<open>Attendance\<close>

text \<open>
  \<^verbatim>\<open>random.sample(population, k)\<close> is library code; it is modelled by its contract: it
  raises \<^verbatim>\<open>ValueError\<close> for a negative \<open>k\<close> or one above the length of the population,
  and otherwise returns the elements at \<open>k\<close> different positions, each position drawn
  among those not yet taken.
\<close>

fun sample_loop :: "'a list \<Rightarrow> nat \<Rightarrow> rng \<Rightarrow> 'a list \<times> rng" where
  "sample_loop pool 0 g = ([], g)"
| "sample_loop pool (Suc k) g =
     (case randbelow (length pool) g of (j, g1) \<Rightarrow>
      case sample_loop (take j pool @ drop (Suc j) pool) k g1 of (rest, g2) \<Rightarrow>
        (pool ! j # rest, g2))"

definition random_sample :: "'a list \<Rightarrow> int \<Rightarrow> rng \<Rightarrow> py_error + ('a list \<times> rng)" where
  "random_sample population k g =
     (if k < 0 \<or> int (length population) < k then Inl ValueError
      else Inr (sample_loop population (nat k) g))"

text \<open>\<^verbatim>\<open>f"ATT{attendance_id:06d}"\<close>: the number padded with zeros to six characters.\<close>

definition format_06d :: "int \<Rightarrow> string" where
  "format_06d n =
     (if n < 0 then
        CHR ''-'' # replicate (5 - length (str_nat (nat (- n)))) CHR ''0'' @ str_nat (nat (- n))
      else replicate (6 - length (str_nat (nat n))) CHR ''0'' @ str_nat (nat n))"

record attendance =
  attendance_id :: string
  att_student_id :: int
  att_date :: date
  status :: string

text \<open>
  \<^verbatim>\<open>_generate_attendance\<close>, the same in both generators. \<open>attendance_samples\<close> is the
  first half of the body of the loop over the students: the two counts and the two
  samples. \<open>attendance_day_loop\<close> is the loop over the school days, \<open>student_attendance\<close>
  one pass of the loop over the students and \<open>attendance_student_loop\<close> that loop;
  \<open>aid\<close> is the running \<^verbatim>\<open>attendance_id\<close>.
\<close>

definition attendance_samples ::
  "(real \<Rightarrow> real) \<Rightarrow> date list \<Rightarrow> rng \<Rightarrow> py_error + (date list \<times> date list \<times> rng)" where
  "attendance_samples fl school_days g =
     (let total_days = length school_days;
          absence_count = py_int (fl (fl (real total_days) * d0_05));
          tardy_count = py_int (fl (fl (real total_days) * d0_03))
      in case random_sample school_days (min absence_count (int (length school_days))) g of
           Inl e \<Rightarrow> Inl e
         | Inr (absence_days, g1) \<Rightarrow>
             (let remaining_days = filter (\<lambda>day. day \<notin> set absence_days) school_days
              in case random_sample remaining_days
                        (min tardy_count (int (length remaining_days))) g1 of
                   Inl e \<Rightarrow> Inl e
                 | Inr (tardy_days, g2) \<Rightarrow> Inr (absence_days, tardy_days, g2)))"

fun attendance_day_loop ::
  "date list \<Rightarrow> date list \<Rightarrow> date list \<Rightarrow> int \<Rightarrow> int \<Rightarrow> rng
     \<Rightarrow> py_error + (attendance list \<times> int \<times> rng)" where
  "attendance_day_loop [] absence_days tardy_days sid aid g = Inr ([], aid, g)"
| "attendance_day_loop (day # days) absence_days tardy_days sid aid g =
     (case (if day \<in> set absence_days then random_choice [''Absent'', ''Excused''] g
            else if day \<in> set tardy_days then Inr (''Tardy'', g)
            else Inr (''Present'', g)) of
        Inl e \<Rightarrow> Inl e
      | Inr (st, g1) \<Rightarrow>
          (case attendance_day_loop days absence_days tardy_days sid (aid + 1) g1 of
             Inl e \<Rightarrow> Inl e
           | Inr (rows, aid', g2) \<Rightarrow>
               Inr (\<lparr>attendance_id = ''ATT'' @ format_06d aid, att_student_id = sid,
                     att_date = day, status = st\<rparr> # rows, aid', g2)))"

definition student_attendance ::
  "(real \<Rightarrow> real) \<Rightarrow> int \<Rightarrow> date list \<Rightarrow> int \<Rightarrow> rng \<Rightarrow> py_error + (attendance list \<times> int \<times> rng)" where
  "student_attendance fl sid school_days aid g =
     (case attendance_samples fl school_days g of
        Inl e \<Rightarrow> Inl e
      | Inr (absence_days, tardy_days, g2) \<Rightarrow>
          attendance_day_loop school_days absence_days tardy_days sid aid g2)"

fun attendance_student_loop ::
  "(real \<Rightarrow> real) \<Rightarrow> student list \<Rightarrow> date list \<Rightarrow> int \<Rightarrow> rng \<Rightarrow> py_error + (attendance list \<times> int \<times> rng)" where
  "attendance_student_loop fl [] school_days aid g = Inr ([], aid, g)"
| "attendance_student_loop fl (student # students) school_days aid g =
     (case student_attendance fl (student_id student) school_days aid g of
        Inl e \<Rightarrow> Inl e
      | Inr (rows, aid1, g1) \<Rightarrow>
          (case attendance_student_loop fl students school_days aid1 g1 of
             Inl e \<Rightarrow> Inl e
           | Inr (rows', aid2, g2) \<Rightarrow> Inr (rows @ rows', aid2, g2)))"

definition generate_attendance ::
  "(real \<Rightarrow> real) \<Rightarrow> student_registry \<Rightarrow> int \<Rightarrow> rng \<Rightarrow> py_error + attendance list" where
  "generate_attendance fl reg year g =
     (case get_school_days year of
        Inl e \<Rightarrow> Inl e
      | Inr school_days \<Rightarrow>
          map_sum id fst
            (attendance_student_loop fl (dict_values (active_students reg)) school_days 1 g))"

definition generate_attendance_decade ::
  "(real \<Rightarrow> real) \<Rightarrow> student_registry \<Rightarrow> int \<Rightarrow> rng \<Rightarrow> py_error + attendance list" where
  "generate_attendance_decade fl reg year g =
     (case get_school_days_decade year of
        Inl e \<Rightarrow> Inl e
      | Inr school_days \<Rightarrow>
          map_sum id fst
            (attendance_student_loop fl (dict_values (active_students reg)) school_days 1 g))"

text \<open>The number of rows with a given status.\<close>

definition status_count :: "string \<Rightarrow> attendance list \<Rightarrow> nat" where
  "status_count st rows = length (filter (\<lambda>r. status r = st) rows)"

section \<open>Example inputs\<close>

text \<open>Concrete generators and rows at which the theorems below are instantiated.\<close>

text \<open>The rounding that changes nothing: it is a nearest rounding.\<close>

definition exact_rounding :: "real \<Rightarrow> real" where
  "exact_rounding = (\<lambda>x. x)"

definition example_rng :: rng where
  "example_rng = (\<lambda>i. 2 ^ 52)"

definition example_nprng :: nprng where
  "example_nprng = (\<lambda>i. 0)"

definition example_assignment :: assignment where
  "example_assignment =
     \<lparr>assignment_id = 7, class_id = 3, points_possible = 100, due_date = ''2016-10-03'', term_id = 1\<rparr>"

definition example_grade_row :: grade where
  "example_grade_row =
     \<lparr>grade_id = 1, g_student_id = 12, g_assignment_id = 7, score = 0,
      submitted_on = ''2016-10-03'', g_term_id = 1\<rparr>"

text \<open>
  A baseline of 500 students with the ids 1 to 500, spread evenly over the grade levels
  1 to 13, loaded into an empty registry.
\<close>

definition example_baseline_row :: "nat \<Rightarrow> baseline_student" where
  "example_baseline_row i =
     \<lparr>b_student_id = int i, b_first_name = ''Ada'', b_last_name = ''Byron'', b_gender = ''F'',
      b_date_of_birth = ''2005-01-01'', b_grade_level_id = int (i mod 13) + 1\<rparr>"

definition example_baseline :: student_registry where
  "example_baseline =
     load_baseline_students new_student_registry (map example_baseline_row [1..<501])"

definition example_faker :: faker where
  "example_faker = (\<lambda>i. ''Lovelace'')"

text \<open>
  Two siblings: the students 1 and 2 of the family \<^verbatim>\<open>FAM0\<close>. With the draws of
  \<open>low_rng\<close> (\<^verbatim>\<open>random.random()\<close> gives 0) the first of them gets a two-parent family.
\<close>

definition example_sibling :: "int \<Rightarrow> student" where
  "example_sibling i =
     \<lparr>student_id = i, first_name = ''Ada'', last_name = ''Byron'', gender = ''F'',
      date_of_birth = ''2005-01-01'', grade_level_id = 5, enrollment_year = 2015,
      family_id = family_name i, graduation_year = None, transfer_year = None,
      is_transfer = False\<rparr>"

definition low_rng :: rng where
  "low_rng = (\<lambda>i. 0)"

text \<open>A registry of two students: student 1 at grade level 5, student 2 at grade level 13.\<close>

definition example_small_registry :: student_registry where
  "example_small_registry =
     \<lparr>active_students =
        [(1, example_sibling 1), (2, (example_sibling 2)\<lparr>grade_level_id := 13\<rparr>)],
      graduated_students = [], transferred_students = [], student_id_counter = 3\<rparr>"

text \<open>
  The guardians and relationships that \<^verbatim>\<open>generate_guardians_for_students\<close> creates for
  the two siblings: \<open>two_parent_registry\<close> after student 1, \<open>sibling_registry\<close> after
  student 2.
\<close>

definition example_guardian :: "int \<Rightarrow> guardian" where
  "example_guardian i =
     \<lparr>guardian_id = i, gd_first_name = ''Lovelace'', gd_last_name = ''Byron'',
      email = ''Lovelace'', phone = ''Lovelace''\<rparr>"

definition example_rel :: "int \<Rightarrow> int \<Rightarrow> int \<Rightarrow> relationship" where
  "example_rel sid gid type_id =
     \<lparr>r_student_id = sid, r_guardian_id = gid, guardian_type_id = type_id,
      r_family_id = ''FAM0''\<rparr>"

definition two_parent_registry :: guardian_registry where
  "two_parent_registry =
     \<lparr>guardians = [(1, example_guardian 1), (2, example_guardian 2)],
      student_guardians =
        [(StrKey ''1_1'', example_rel 1 1 1), (StrKey ''1_2'', example_rel 1 2 2)],
      guardian_id_counter = 3, transferred_guardians = []\<rparr>"

definition sibling_registry :: guardian_registry where
  "sibling_registry =
     \<lparr>guardians = [(1, example_guardian 1), (2, example_guardian 2)],
      student_guardians =
        [(StrKey ''1_1'', example_rel 1 1 1), (StrKey ''1_2'', example_rel 1 2 2),
         (IntKey 2, example_rel 2 2 2)],
      guardian_id_counter = 3, transferred_guardians = []\<rparr>"

text \<open>
  Three teachers with 30, 5 and 10 years of experience, as \<^verbatim>\<open>load_baseline_teachers\<close>
  stores them.
\<close>

definition example_teacher :: "int \<Rightarrow> int \<Rightarrow> teacher" where
  "example_teacher i ye =
     \<lparr>teacher_id = i, t_first_name = ''Grace'', t_last_name = ''Hopper'', department_id = 1,
      hire_year = 2010, years_experience = ye, position_level = ''Teacher'',
      retirement_year = None, departure_year = None\<rparr>"

definition example_teachers :: teacher_registry where
  "example_teachers =
     \<lparr>active_teachers =
        [(1, example_teacher 1 30), (2, example_teacher 2 5), (3, example_teacher 3 10)],
      retired_teachers = [], former_teachers = [], teacher_id_counter = 4\<rparr>"

section \<open>Properties of the rounding\<close>

text \<open>
  The rounding leaves a double unchanged and never crosses a double: it is monotone
  against every double. The integers up to \<open>2\<^sup>5\<^sup>3\<close> and the constants are doubles.
\<close>

lemma nearest_rounding_exact: "nearest_rounding exact_rounding"
  by (simp add: nearest_rounding_def exact_rounding_def)

lemma fl_nearest:
  "nearest_rounding fl \<Longrightarrow> is_double d \<Longrightarrow> \<bar>fl x - x\<bar> \<le> \<bar>d - x\<bar>"
  by (simp add: nearest_rounding_def)

lemma fl_double: "nearest_rounding fl \<Longrightarrow> is_double d \<Longrightarrow> fl d = d"
  using fl_nearest[of fl d d] by simp

lemma fl_le_double: "nearest_rounding fl \<Longrightarrow> is_double d \<Longrightarrow> x \<le> d \<Longrightarrow> fl x \<le> d"
  using fl_nearest[of fl d x] by linarith

lemma fl_ge_double: "nearest_rounding fl \<Longrightarrow> is_double d \<Longrightarrow> d \<le> x \<Longrightarrow> d \<le> fl x"
  using fl_nearest[of fl d x] by linarith

lemma fl_near_double:
  "nearest_rounding fl \<Longrightarrow> is_double d \<Longrightarrow> \<bar>fl x - d\<bar> \<le> 2 * \<bar>d - x\<bar>"
proof -
  assume a: "nearest_rounding fl" "is_double d"
  have "\<bar>fl x - d\<bar> \<le> \<bar>fl x - x\<bar> + \<bar>d - x\<bar>" by (simp add: abs_if)
  then show ?thesis using fl_nearest[OF a, of x] by simp
qed

lemma is_double_int: "\<bar>i\<bar> \<le> 2 ^ 53 \<Longrightarrow> is_double (of_int i)"
  unfolding is_double_def by (rule exI[of _ i], rule exI[of _ 0]) simp

lemma is_double_0: "is_double 0"
  using is_double_int[of 0] by simp

lemma is_double_1: "is_double 1"
  using is_double_int[of 1] by simp

lemma is_double_d0_95: "is_double d0_95"
  unfolding is_double_def d0_95_def
  by (rule exI[of _ 4278419646001971], rule exI[of _ 52]) simp

lemma is_double_1_d0_95: "is_double (1 - d0_95)"
  unfolding is_double_def d0_95_def
  by (rule exI[of _ 225179981368525], rule exI[of _ 52]) simp

lemma is_double_d0_69: "is_double d0_69"
  unfolding is_double_def d0_69_def
  by (rule exI[of _ 1553741871442821], rule exI[of _ 51]) simp

lemma is_double_d0_70: "is_double d0_70"
  unfolding is_double_def d0_70_def
  by (rule exI[of _ 3152519739159347], rule exI[of _ 52]) simp

lemma is_double_d0_87: "is_double d0_87"
  unfolding is_double_def d0_87_def
  by (rule exI[of _ 7836263351624663], rule exI[of _ 53]) simp

section \<open>Properties of the grade generators\<close>

lemma random_random_range: "0 \<le> fst (random_random g) \<and> fst (random_random g) < 1"
  by (simp add: random_random_def)

lemma py_round_bounds:
  assumes "0 \<le> x" "x \<le> of_int n"
  shows "0 \<le> py_round x \<and> py_round x \<le> n"
proof -
  have f0: "0 \<le> \<lfloor>x\<rfloor>" using assms by simp
  have fn: "\<lfloor>x\<rfloor> \<le> n" using assms by (simp add: floor_le_iff)
  show ?thesis
  proof (cases "\<lfloor>x\<rfloor> = n")
    case True
    then have "x - of_int \<lfloor>x\<rfloor> \<le> 0" using assms by simp
    then show ?thesis using f0 True by (simp add: py_round_def Let_def)
  next
    case False
    then have "\<lfloor>x\<rfloor> + 1 \<le> n" using fn by simp
    then show ?thesis using f0 fn by (auto simp add: py_round_def Let_def)
  qed
qed

lemma py_round_near:
  assumes "\<bar>x - of_int n\<bar> < 1 / 2"
  shows "py_round x = n"
proof -
  have a: "of_int n - 1 / 2 < x" "x < of_int n + 1 / 2" using assms by linarith+
  show ?thesis
  proof (cases "of_int n \<le> x")
    case True
    then have f: "\<lfloor>x\<rfloor> = n" using a by (simp add: floor_eq_iff)
    show ?thesis using a by (simp add: py_round_def Let_def f)
  next
    case False
    then have f: "\<lfloor>x\<rfloor> = n - 1" using a by (simp add: floor_eq_iff)
    show ?thesis using a False by (simp add: py_round_def Let_def f)
  qed
qed

lemma random_uniform_range:
  assumes n: "nearest_rounding fl"
    and da: "is_double a" and db: "is_double b" and dw: "is_double (b - a)" and ab: "a \<le> b"
  shows "fst (random_uniform fl a b g) = fl (a + fl ((b - a) * fst (random_random g)))
       \<and> a \<le> fst (random_uniform fl a b g) \<and> fst (random_uniform fl a b g) \<le> b"
proof -
  let ?u = "fst (random_random g)"
  have u: "0 \<le> ?u" "?u < 1" using random_random_range[of g] by simp_all
  have w: "fl (b - a) = b - a" using n dw by (rule fl_double)
  have e: "fst (random_uniform fl a b g) = fl (a + fl ((b - a) * ?u))"
    by (simp add: random_uniform_def case_prod_beta w)
  have p0: "0 \<le> (b - a) * ?u" using ab u by simp
  have p1: "(b - a) * ?u \<le> b - a" using ab u by (simp add: mult_left_le)
  have q0: "0 \<le> fl ((b - a) * ?u)" using n is_double_0 p0 by (rule fl_ge_double)
  have q1: "fl ((b - a) * ?u) \<le> b - a" using n dw p1 by (rule fl_le_double)
  have r0: "a \<le> fl (a + fl ((b - a) * ?u))"
    by (rule fl_ge_double[OF n da]) (use q0 in simp)
  have r1: "fl (a + fl ((b - a) * ?u)) \<le> b"
    by (rule fl_le_double[OF n db]) (use q1 in simp)
  show ?thesis using e r0 r1 by simp
qed

lemma double_order: "d0_03 < d0_08" "0 \<le> d0_69" "d0_95 \<le> 1" "d0_70 \<le> 1" "0 \<le> d0_70"
  "0 \<le> d0_95" "d0_69 \<le> 1"
  by (simp_all add: d0_03_def d0_08_def d0_69_def d0_95_def d0_70_def)

lemma realistic_percentage_cases:
  fixes g ng fl
  defines "rand \<equiv> fst (random_random g)"
    and "u \<equiv> fst (random_random (rng_tail g))"
    and "pct \<equiv> fst (realistic_percentage fl g ng)"
  assumes n: "nearest_rounding fl"
  shows "rand < d0_03 \<Longrightarrow>
           pct = fl (d0_95 + fl ((1 - d0_95) * u)) \<and> d0_95 \<le> pct \<and> pct \<le> 1"
    and "d0_03 \<le> rand \<Longrightarrow> rand < d0_08 \<Longrightarrow>
           pct = fl (0 + fl ((d0_69 - 0) * u)) \<and> 0 \<le> pct \<and> pct \<le> d0_69"
    and "d0_08 \<le> rand \<Longrightarrow>
           pct = max d0_70 (min 1 (fl (d0_87 + fl (d0_08 * ng 0)))) \<and> d0_70 \<le> pct \<and> pct \<le> 1"
proof -
  have t: "snd (random_random g) = rng_tail g" by (simp add: random_random_def)
  have d: "is_double (d0_69 - 0)" using is_double_d0_69 by simp
  note a = random_uniform_range[OF n is_double_d0_95 is_double_1 is_double_1_d0_95 double_order(3),
      of "rng_tail g"]
  note b = random_uniform_range[OF n is_double_0 is_double_d0_69 d double_order(2), of "rng_tail g"]
  show "rand < d0_03 \<Longrightarrow>
           pct = fl (d0_95 + fl ((1 - d0_95) * u)) \<and> d0_95 \<le> pct \<and> pct \<le> 1"
    using a unfolding rand_def u_def pct_def
    by (simp add: realistic_percentage_def case_prod_beta t)
  show "d0_03 \<le> rand \<Longrightarrow> rand < d0_08 \<Longrightarrow>
           pct = fl (0 + fl ((d0_69 - 0) * u)) \<and> 0 \<le> pct \<and> pct \<le> d0_69"
    using b unfolding rand_def u_def pct_def
    by (simp add: realistic_percentage_def case_prod_beta t)
  show "d0_08 \<le> rand \<Longrightarrow>
           pct = max d0_70 (min 1 (fl (d0_87 + fl (d0_08 * ng 0)))) \<and> d0_70 \<le> pct \<and> pct \<le> 1"
    using double_order(1,4) unfolding rand_def u_def pct_def
    by (simp add: realistic_percentage_def case_prod_beta np_random_normal_def)
qed

lemma realistic_percentage_range:
  assumes n: "nearest_rounding fl"
  shows "0 \<le> fst (realistic_percentage fl g ng) \<and> fst (realistic_percentage fl g ng) \<le> 1"
proof -
  let ?rand = "fst (random_random g)"
  consider "?rand < d0_03" | "d0_03 \<le> ?rand" "?rand < d0_08" | "d0_08 \<le> ?rand" by linarith
  then show ?thesis
  proof cases
    case 1
    then show ?thesis using realistic_percentage_cases(1)[OF n, of g ng] double_order by linarith
  next
    case 2
    then show ?thesis using realistic_percentage_cases(2)[OF n, of g ng] double_order by linarith
  next
    case 3
    then show ?thesis using realistic_percentage_cases(3)[OF n, of g ng] double_order by linarith
  qed
qed

lemma clamp_id:
  assumes n: "nearest_rounding fl" and "0 \<le> pp" "pp \<le> 2 ^ 53"
  shows "fst (generate_realistic_grade fl pp g ng)
       = py_round (fl (of_int pp * fst (realistic_percentage fl g ng)))"
proof -
  let ?p = "fst (realistic_percentage fl g ng)"
  have dp: "is_double (of_int pp)" using assms(2,3) by (intro is_double_int) simp
  have c: "fl (of_int pp) = of_int pp" using n dp by (rule fl_double)
  have "0 \<le> of_int pp * ?p" "of_int pp * ?p \<le> of_int pp"
    using assms(2) realistic_percentage_range[OF n, of g ng] by (auto simp: mult_left_le)
  then have "0 \<le> fl (of_int pp * ?p)" "fl (of_int pp * ?p) \<le> of_int pp"
    using fl_ge_double[OF n is_double_0] fl_le_double[OF n dp] by blast+
  from py_round_bounds[OF this] show ?thesis
    by (simp add: generate_realistic_grade_def case_prod_beta c)
qed

lemma realistic_score_bounds:
  "0 \<le> pp \<Longrightarrow> 0 \<le> fst (generate_realistic_grade fl pp g ng)
     \<and> fst (generate_realistic_grade fl pp g ng) \<le> pp"
  by (simp add: generate_realistic_grade_def case_prod_beta)

lemma proper_score_bounds:
  "0 \<le> pp \<Longrightarrow> 0 \<le> fst (proper_grade_score fl pp g ng) \<and> fst (proper_grade_score fl pp g ng) \<le> pp"
  by (simp add: proper_grade_score_def case_prod_beta Let_def)

lemma grades_for_students_rows:
  "0 \<le> points_possible a \<Longrightarrow> r \<in> set (fst (grades_for_students fl a sids gid g ng)) \<Longrightarrow>
   g_assignment_id r = assignment_id a \<and> 0 \<le> score r \<and> score r \<le> points_possible a"
proof (induction sids arbitrary: gid g ng)
  case Nil
  then show ?case by simp
next
  case (Cons sid sids)
  then show ?case
    using realistic_score_bounds[of "points_possible a" fl g ng]
    by (auto simp add: case_prod_beta)
qed

lemma grades_for_assignments_rows:
  "\<forall>a \<in> set as. 0 \<le> points_possible a \<Longrightarrow>
   r \<in> set (fst (grades_for_assignments fl as es gid g ng)) \<Longrightarrow>
   \<exists>a \<in> set as. g_assignment_id r = assignment_id a \<and> 0 \<le> score r \<and> score r \<le> points_possible a"
proof (induction as arbitrary: gid g ng)
  case Nil
  then show ?case by simp
next
  case (Cons a as)
  from Cons.prems(2) consider
    (hd) "r \<in> set (fst (grades_for_students fl a
            (map enr_student_id (filter (\<lambda>e. enr_class_id e = class_id a) es)) gid g ng))"
  | (tl) gid' g' ng' where "r \<in> set (fst (grades_for_assignments fl as es gid' g' ng'))"
    by (auto simp add: case_prod_beta Let_def)
  then show ?case
  proof cases
    case hd
    then show ?thesis using grades_for_students_rows[of a r fl] Cons.prems(1) by auto
  next
    case tl
    then show ?thesis using Cons.IH[of gid' g' ng'] Cons.prems(1) by auto
  qed
qed

lemma set_alist_update_subset: "set (AList.update k v al) \<subseteq> insert (k, v) (set al)"
  by (induction al) auto

lemma update_values_nonneg:
  assumes "\<forall>x \<in> set d. (0::int) \<le> snd x" "0 \<le> v"
  shows "\<forall>x \<in> set (AList.update k v d). 0 \<le> snd x"
  using assms set_alist_update_subset[of k v d] by auto

lemma assignment_lookup_nonneg_aux:
  "\<forall>a \<in> set as. 0 \<le> points_possible a \<Longrightarrow> \<forall>x \<in> set d. 0 \<le> snd x \<Longrightarrow>
   \<forall>x \<in> set (foldl (\<lambda>d a. AList.update (assignment_id a) (points_possible a) d) d as). 0 \<le> snd x"
proof (induction as arbitrary: d)
  case Nil
  then show ?case by simp
next
  case (Cons a as)
  have "\<forall>x \<in> set (AList.update (assignment_id a) (points_possible a) d). 0 \<le> snd x"
    using Cons.prems by (intro update_values_nonneg) auto
  then show ?case using Cons by simp
qed

lemma lookup_points_nonneg:
  assumes "\<forall>a \<in> set as. 0 \<le> points_possible a"
  shows "0 \<le> lookup_points (assignment_lookup as) aid"
proof (cases "map_of (assignment_lookup as) aid")
  case None
  then show ?thesis by (simp add: lookup_points_def)
next
  case (Some p)
  then have "(aid, p) \<in> set (assignment_lookup as)"
    by (rule map_of_SomeD)
  then have "0 \<le> p"
    using assignment_lookup_nonneg_aux[OF assms, of "[]"] by (force simp add: assignment_lookup_def)
  then show ?thesis using Some by (simp add: lookup_points_def)
qed

lemma proper_grades_rows_scores:
  "\<forall>aid. 0 \<le> lookup_points d aid \<Longrightarrow> r \<in> set (proper_grades_rows fl d rs g ng) \<Longrightarrow>
   0 \<le> score r \<and> score r \<le> lookup_points d (g_assignment_id r)"
proof (induction rs arbitrary: g ng)
  case Nil
  then show ?case by simp
next
  case (Cons r0 rs)
  then show ?case
    using proper_score_bounds[of "lookup_points d (g_assignment_id r0)" fl g ng]
    by (auto simp add: case_prod_beta)
qed

lemma example_rand: "fst (random_random example_rng) = 1 / 2"
  by (simp add: random_random_def example_rng_def)

lemma example_realistic_percentage:
  assumes n: "nearest_rounding fl"
  shows "fst (realistic_percentage fl example_rng example_nprng) = d0_87"
proof -
  have r: "d0_08 \<le> fst (random_random example_rng)"
    unfolding example_rand by (simp add: d0_08_def)
  have z: "fl 0 = 0" using n is_double_0 by (rule fl_double)
  have f: "fl d0_87 = d0_87" using n is_double_d0_87 by (rule fl_double)
  have o: "d0_70 \<le> d0_87" "d0_87 \<le> 1" by (simp_all add: d0_70_def d0_87_def)
  show ?thesis
    using realistic_percentage_cases(3)[OF n r, of example_nprng] o
    by (simp add: example_nprng_def z f)
qed

lemma example_realistic:
  assumes n: "nearest_rounding fl"
  shows "fst (generate_realistic_grade fl 100 example_rng example_nprng) = 87"
proof -
  have h: "(0::int) \<le> 100" "(100::int) \<le> 2 ^ 53" by simp_all
  have d: "is_double (of_int 87)" by (rule is_double_int) simp
  have "\<bar>fl (of_int 100 * d0_87) - of_int 87\<bar> \<le> 2 * \<bar>of_int 87 - of_int 100 * d0_87\<bar>"
    using n d by (rule fl_near_double)
  also have "\<dots> < 1 / 2" by (simp add: d0_87_def)
  finally have "py_round (fl (of_int 100 * d0_87)) = 87" by (rule py_round_near)
  then show ?thesis
    using clamp_id[OF n h, of example_rng example_nprng]
    unfolding example_realistic_percentage[OF n] by simp
qed

lemma example_proper:
  assumes n: "nearest_rounding fl"
  shows "fst (proper_grade_score fl 100 example_rng example_nprng) = 85"
proof -
  have r: "\<not> fst (random_random example_rng) < d0_03" "\<not> fst (random_random example_rng) < d0_08"
    unfolding example_rand by (simp_all add: d0_03_def d0_08_def)
  have z: "fl 0 = 0" using n is_double_0 by (rule fl_double)
  have f: "fl 85 = 85" using fl_double[OF n is_double_int[of 85]] by simp
  have c: "fl 100 = 100" using fl_double[OF n is_double_int[of 100]] by simp
  have p: "fst (proper_percentage fl example_rng example_nprng) = 85"
    using r by (simp add: proper_percentage_def case_prod_beta np_random_normal_def
        example_nprng_def z f)
  have d: "is_double (7656119366529843 / 2 ^ 53)"
    unfolding is_double_def by (rule exI[of _ 7656119366529843], rule exI[of _ 53]) simp
  have "\<bar>fl (85 / 100) - 85 / 100\<bar> \<le> \<bar>7656119366529843 / 2 ^ 53 - 85 / 100\<bar>"
    using n d by (rule fl_nearest)
  also have "\<dots> \<le> 1 / 2 ^ 54" by simp
  finally have q: "\<bar>fl (85 / 100) - 85 / 100\<bar> \<le> 1 / 2 ^ 54" .
  have d85: "is_double (of_int 85)" by (rule is_double_int) simp
  have "\<bar>fl (fl (85 / 100) * 100) - of_int 85\<bar> \<le> 2 * \<bar>of_int 85 - fl (85 / 100) * 100\<bar>"
    using n d85 by (rule fl_near_double)
  also have "\<dots> < 1 / 2"
  proof -
    define y where "y = fl (85 / 100)"
    have "\<bar>y - 85 / 100\<bar> < 1 / 1000" unfolding y_def using q by (rule le_less_trans) simp
    then have "2 * \<bar>85 - y * 100\<bar> < 1 / 2" by (simp add: abs_if split: if_splits)
    then show ?thesis by (simp add: y_def)
  qed
  finally have "py_round (fl (fl (85 / 100) * 100)) = 85" by (rule py_round_near)
  then show ?thesis
    by (simp add: proper_grade_score_def case_prod_beta Let_def p c)
qed



text \<open>
  Claim C1. For a non-negative integer \<open>points_possible\<close> that a float holds exactly
  (at most \<open>2\<^sup>5\<^sup>3\<close>) the grade-score generator returns the float product of
  \<open>points_possible\<close> and a percentage, rounded to an integer: the final clamp into
  \<open>[0, points_possible]\<close> changes nothing. The percentage comes from a three-branch
  mixture selected by one uniform draw \<open>rand\<close> in \<open>[0, 1)\<close>: for \<open>rand < 0.03\<close> (an interval
  of length 0.03) it is \<open>uniform(0.95, 1.0)\<close>, for \<open>0.03 \<le> rand < 0.08\<close> (length 0.05) it is
  \<open>uniform(0.0, 0.69)\<close>, otherwise it is \<open>Normal(0.87, 0.08)\<close> clamped to \<open>[0.70, 1.0]\<close>.
  The numbers 0.03, 0.08, 0.95, 0.69, 0.87 and 0.70 are the doubles of these literals,
  each within \<open>2\<^sup>-\<^sup>5\<^sup>4\<close> of the decimal, and every sum and product is rounded.
\<close>

theorem grade_mixture:
  fixes fl :: "real \<Rightarrow> real" and g :: rng and ng :: nprng and points_possible :: int
  defines "rand \<equiv> fst (random_random g)"
    and "u \<equiv> fst (random_random (rng_tail g))"
    and "percentage \<equiv> fst (realistic_percentage fl g ng)"
  assumes "nearest_rounding fl" and "0 \<le> points_possible" and "points_possible \<le> 2 ^ 53"
  shows "fst (generate_realistic_grade fl points_possible g ng)
           = py_round (fl (of_int points_possible * percentage))
       \<and> 0 \<le> rand \<and> rand < 1 \<and> 0 \<le> u \<and> u < 1
       \<and> (rand < d0_03 \<longrightarrow>
            percentage = fl (d0_95 + fl ((1 - d0_95) * u))
            \<and> d0_95 \<le> percentage \<and> percentage \<le> 1)
       \<and> (d0_03 \<le> rand \<and> rand < d0_08 \<longrightarrow>
            percentage = fl (0 + fl ((d0_69 - 0) * u))
            \<and> 0 \<le> percentage \<and> percentage \<le> d0_69)
       \<and> (d0_08 \<le> rand \<longrightarrow>
            percentage = max d0_70 (min 1 (fl (d0_87 + fl (d0_08 * ng 0))))
            \<and> d0_70 \<le> percentage \<and> percentage \<le> 1)
       \<and> \<bar>d0_03 - 3 / 100\<bar> \<le> 1 / 2 ^ 54 \<and> \<bar>d0_08 - 8 / 100\<bar> \<le> 1 / 2 ^ 54
       \<and> \<bar>d0_95 - 95 / 100\<bar> \<le> 1 / 2 ^ 54 \<and> \<bar>d0_69 - 69 / 100\<bar> \<le> 1 / 2 ^ 54
       \<and> \<bar>d0_87 - 87 / 100\<bar> \<le> 1 / 2 ^ 54 \<and> \<bar>d0_70 - 70 / 100\<bar> \<le> 1 / 2 ^ 54"
proof -
  have r: "0 \<le> rand \<and> rand < 1" "0 \<le> u \<and> u < 1"
    unfolding rand_def u_def by (rule random_random_range)+
  note c = realistic_percentage_cases[OF assms(4), of g ng, folded rand_def u_def percentage_def]
  have s: "fst (generate_realistic_grade fl points_possible g ng)
           = py_round (fl (of_int points_possible * percentage))"
    unfolding percentage_def using assms(4,5,6) by (rule clamp_id)
  have k: "\<bar>d0_03 - 3 / 100\<bar> \<le> 1 / 2 ^ 54" "\<bar>d0_08 - 8 / 100\<bar> \<le> 1 / 2 ^ 54"
    "\<bar>d0_95 - 95 / 100\<bar> \<le> 1 / 2 ^ 54" "\<bar>d0_69 - 69 / 100\<bar> \<le> 1 / 2 ^ 54"
    "\<bar>d0_87 - 87 / 100\<bar> \<le> 1 / 2 ^ 54" "\<bar>d0_70 - 70 / 100\<bar> \<le> 1 / 2 ^ 54"
    by (simp_all add: d0_03_def d0_08_def d0_95_def d0_69_def d0_87_def d0_70_def)
  show ?thesis using r c s k by blast
qed

theorem grade_mixture_witness:
  "fst (generate_realistic_grade exact_rounding 100 example_rng example_nprng) = 87
   \<and> fst (random_random example_rng) = 1 / 2
   \<and> fst (realistic_percentage exact_rounding example_rng example_nprng) = d0_87
   \<and> py_round (exact_rounding (of_int 100 * d0_87)) = 87"
proof -
  have h: "(0::int) \<le> 100" "(100::int) \<le> 2 ^ 53" by simp_all
  note m = grade_mixture[OF nearest_rounding_exact h, of example_rng example_nprng,
      unfolded example_rand]
  have b: "d0_08 \<le> (1::real) / 2" by (simp add: d0_08_def)
  have o: "d0_70 \<le> d0_87" "d0_87 \<le> 1" by (simp_all add: d0_70_def d0_87_def)
  have p: "fst (realistic_percentage exact_rounding example_rng example_nprng) = d0_87"
    using m b o by (simp add: example_nprng_def exact_rounding_def)
  have q: "py_round (exact_rounding (of_int 100 * d0_87)) = 87"
    by (simp add: py_round_def exact_rounding_def d0_87_def)
  have "fst (generate_realistic_grade exact_rounding 100 example_rng example_nprng) = 87"
    using m unfolding p q by blast
  then show ?thesis using example_rand p q by simp
qed


text \<open>
  The product that is rounded is the float product, not the exact one. When the normal
  branch is clamped to its lower bound, the float product of 45 and the double 0.70 lies
  below 31.5, and that of 85 and 0.70 below 59.5: the scores are 31 and 59 for every
  nearest rounding, where the products of the decimals, 31.5 and 59.5, would round to
  32 and 60.
\<close>

lemma lower_clamp_45:
  assumes n: "nearest_rounding fl" and r: "d0_08 \<le> fst (random_random g)" and z: "ng 0 \<le> - 10"
  shows "fst (realistic_percentage fl g ng) = d0_70
       \<and> fst (generate_realistic_grade fl 45 g ng) = 31
       \<and> fst (generate_realistic_grade fl 85 g ng) = 59"
proof -
  have h: "is_double (- (1 / 2))"
    unfolding is_double_def by (rule exI[of _ "- 1"], rule exI[of _ 1]) simp
  have h2: "is_double (1 / 2)"
    unfolding is_double_def by (rule exI[of _ "1"], rule exI[of _ 1]) simp
  have "d0_08 * ng 0 \<le> d0_08 * (- 10)" using z by (simp add: d0_08_def)
  also have "\<dots> \<le> - (1 / 2)" by (simp add: d0_08_def)
  finally have "fl (d0_08 * ng 0) \<le> - (1 / 2)" by (rule fl_le_double[OF n h])
  then have "d0_87 + fl (d0_08 * ng 0) \<le> 1 / 2" by (simp add: d0_87_def)
  then have "fl (d0_87 + fl (d0_08 * ng 0)) \<le> 1 / 2" by (rule fl_le_double[OF n h2])
  then have l: "fl (d0_87 + fl (d0_08 * ng 0)) \<le> d0_70" by (simp add: d0_70_def)
  have p: "fst (realistic_percentage fl g ng) = d0_70"
    using realistic_percentage_cases(3)[OF n r, of ng] l double_order(4) by simp
  have h45: "(0::int) \<le> 45" "(45::int) \<le> 2 ^ 53" by simp_all
  have h85: "(0::int) \<le> 85" "(85::int) \<le> 2 ^ 53" by simp_all
  have d45: "is_double (8866461766385663 / 2 ^ 48)"
    unfolding is_double_def by (rule exI[of _ 8866461766385663], rule exI[of _ 48]) simp
  have "\<bar>fl (of_int 45 * d0_70) - of_int 45 * d0_70\<bar>
        \<le> \<bar>8866461766385663 / 2 ^ 48 - of_int 45 * d0_70\<bar>"
    using n d45 by (rule fl_nearest)
  then have "\<bar>fl (of_int 45 * d0_70) - of_int 31\<bar> < 1 / 2"
    by (simp add: d0_70_def abs_if split: if_splits)
  then have s45: "py_round (fl (of_int 45 * d0_70)) = 31" by (rule py_round_near)
  have d85: "is_double (8373880557142015 / 2 ^ 47)"
    unfolding is_double_def by (rule exI[of _ 8373880557142015], rule exI[of _ 47]) simp
  have "\<bar>fl (of_int 85 * d0_70) - of_int 85 * d0_70\<bar>
        \<le> \<bar>8373880557142015 / 2 ^ 47 - of_int 85 * d0_70\<bar>"
    using n d85 by (rule fl_nearest)
  then have "\<bar>fl (of_int 85 * d0_70) - of_int 59\<bar> < 1 / 2"
    by (simp add: d0_70_def abs_if split: if_splits)
  then have s85: "py_round (fl (of_int 85 * d0_70)) = 59" by (rule py_round_near)
  show ?thesis
    using clamp_id[OF n h45, of g ng] clamp_id[OF n h85, of g ng] p s45 s85 by simp
qed

text \<open>
  Claim C2. For a non-negative integer \<open>points_possible\<close> the score of
  \<^verbatim>\<open>_generate_realistic_grade\<close> and the score of the hotfix's \<^verbatim>\<open>generate_proper_grades\<close>
  lie between 0 and \<open>points_possible\<close>, whatever the rounding of the floats; hence every row of a generated grade table has
  \<open>0 \<le> score \<le> points_possible\<close> of its assignment, when no assignment has negative points.
\<close>

theorem grade_score_bounds:
  assumes "0 \<le> pp" and "\<forall>a \<in> set assignments_df. 0 \<le> points_possible a"
  shows "(0 \<le> fst (generate_realistic_grade fl pp g ng) \<and> fst (generate_realistic_grade fl pp g ng) \<le> pp)
       \<and> (0 \<le> fst (proper_grade_score fl pp g ng) \<and> fst (proper_grade_score fl pp g ng) \<le> pp)
       \<and> (\<forall>r \<in> set (generate_grades fl assignments_df enrollments_df g ng).
            \<exists>a \<in> set assignments_df. assignment_id a = g_assignment_id r
                  \<and> 0 \<le> score r \<and> score r \<le> points_possible a)
       \<and> (\<forall>r \<in> set (generate_proper_grades fl grades_df assignments_df g ng).
            0 \<le> score r
            \<and> score r \<le> lookup_points (assignment_lookup assignments_df) (g_assignment_id r))"
proof -
  have t: "\<forall>r \<in> set (generate_grades fl assignments_df enrollments_df g ng).
            \<exists>a \<in> set assignments_df. assignment_id a = g_assignment_id r
                  \<and> 0 \<le> score r \<and> score r \<le> points_possible a"
    unfolding generate_grades_def
    using grades_for_assignments_rows[OF assms(2), of _ fl] by fastforce
  have l: "\<forall>aid. 0 \<le> lookup_points (assignment_lookup assignments_df) aid"
    using lookup_points_nonneg[OF assms(2)] by simp
  have h: "\<forall>r \<in> set (generate_proper_grades fl grades_df assignments_df g ng).
            0 \<le> score r
            \<and> score r \<le> lookup_points (assignment_lookup assignments_df) (g_assignment_id r)"
    unfolding generate_proper_grades_def
    using proper_grades_rows_scores[OF l, of _ fl] by blast
  show ?thesis
    using realistic_score_bounds[OF assms(1), of fl g ng] proper_score_bounds[OF assms(1), of fl g ng] t h
    by blast
qed

theorem grade_score_bounds_witness:
  "(0::int) \<le> 100 \<and> 0 \<le> points_possible example_assignment
   \<and> map score (generate_grades exact_rounding [example_assignment]
        [\<lparr>enr_student_id = 12, enr_class_id = 3\<rparr>] example_rng example_nprng) = [87]
   \<and> map score (generate_proper_grades exact_rounding [example_grade_row] [example_assignment]
        example_rng example_nprng) = [85]
   \<and> list_all (\<lambda>r. 0 \<le> score r \<and> score r \<le> 100)
        (generate_grades exact_rounding [example_assignment]
           [\<lparr>enr_student_id = 12, enr_class_id = 3\<rparr>] example_rng example_nprng)
   \<and> list_all (\<lambda>r. 0 \<le> score r \<and> score r \<le> 100)
        (generate_proper_grades exact_rounding [example_grade_row] [example_assignment]
           example_rng example_nprng)"
proof -
  have h1: "(0::int) \<le> 100" by simp
  have h2: "\<forall>a \<in> set [example_assignment]. 0 \<le> points_possible a"
    by (simp add: example_assignment_def)
  have e1: "map score (generate_grades exact_rounding [example_assignment]
        [\<lparr>enr_student_id = 12, enr_class_id = 3\<rparr>] example_rng example_nprng) = [87]"
    using example_realistic[OF nearest_rounding_exact]
    by (simp add: generate_grades_def example_assignment_def case_prod_beta)
  have e2: "map score (generate_proper_grades exact_rounding [example_grade_row] [example_assignment]
        example_rng example_nprng) = [85]"
    using example_proper[OF nearest_rounding_exact]
    by (simp add: generate_proper_grades_def assignment_lookup_def lookup_points_def
        example_assignment_def example_grade_row_def case_prod_beta)
  have l: "lookup_points (assignment_lookup [example_assignment]) aid \<le> 100" for aid
    by (simp add: assignment_lookup_def lookup_points_def example_assignment_def)
  note b = grade_score_bounds[OF h1 h2, of exact_rounding example_rng example_nprng
        "[\<lparr>enr_student_id = 12, enr_class_id = 3\<rparr>]" "[example_grade_row]"]
  have b1: "list_all (\<lambda>r. 0 \<le> score r \<and> score r \<le> 100)
        (generate_grades exact_rounding [example_assignment]
           [\<lparr>enr_student_id = 12, enr_class_id = 3\<rparr>] example_rng example_nprng)"
    using b by (simp add: example_assignment_def list_all_iff)
  have b2: "list_all (\<lambda>r. 0 \<le> score r \<and> score r \<le> 100)
        (generate_proper_grades exact_rounding [example_grade_row] [example_assignment]
           example_rng example_nprng)"
    unfolding list_all_iff
  proof
    fix r
    assume "r \<in> set (generate_proper_grades exact_rounding [example_grade_row] [example_assignment]
           example_rng example_nprng)"
    then have "0 \<le> score r
        \<and> score r \<le> lookup_points (assignment_lookup [example_assignment]) (g_assignment_id r)"
      using b by blast
    then show "0 \<le> score r \<and> score r \<le> 100"
      using l[of "g_assignment_id r"] by linarith
  qed
  show ?thesis using h1 h2 e1 e2 b1 b2 by simp
qed

text \<open>
  Claim C3. The hotfix and the generator are different functions: there are a
  \<open>points_possible\<close> and one sequence of random draws, selecting the normal branch in both,
  for which the hotfix's score (Normal(85, 5) on the percent scale, clamped to 70..94)
  differs from the generator's (Normal(0.87, 0.08), clamped to 0.70..1.0). With 100
  points, the uniform draw 0.5 and the normal deviate 0, the hotfix gives 85 and the
  generator 87, for every nearest rounding of the floats.
\<close>

theorem grade_generators_differ:
  assumes "nearest_rounding fl"
  shows "(\<exists>pp g ng. 0 \<le> pp \<and> d0_08 \<le> fst (random_random g)
       \<and> fst (proper_grade_score fl pp g ng) \<noteq> fst (generate_realistic_grade fl pp g ng))
   \<and> fst (proper_grade_score fl 100 example_rng example_nprng) = 85
   \<and> fst (generate_realistic_grade fl 100 example_rng example_nprng) = 87
   \<and> proper_grade_score fl \<noteq> generate_realistic_grade fl"
proof -
  note p = example_proper[OF assms] and r = example_realistic[OF assms]
  have d: "fst (proper_grade_score fl 100 example_rng example_nprng)
           \<noteq> fst (generate_realistic_grade fl 100 example_rng example_nprng)"
    by (simp add: p r)
  have "(0::int) \<le> 100 \<and> d0_08 \<le> fst (random_random example_rng)"
    by (simp add: example_rand d0_08_def)
  then have "\<exists>pp g ng. 0 \<le> pp \<and> d0_08 \<le> fst (random_random g)
       \<and> fst (proper_grade_score fl pp g ng) \<noteq> fst (generate_realistic_grade fl pp g ng)"
    using d by blast
  moreover have "proper_grade_score fl \<noteq> generate_realistic_grade fl"
    using d by auto
  ultimately show ?thesis using p r by blast
qed

theorem grade_generators_differ_witness:
  "fst (proper_grade_score exact_rounding 100 example_rng example_nprng) = 85
   \<and> fst (generate_realistic_grade exact_rounding 100 example_rng example_nprng) = 87
   \<and> proper_grade_score exact_rounding \<noteq> generate_realistic_grade exact_rounding"
  using grade_generators_differ[OF nearest_rounding_exact] by blast


section \<open>Properties of the student registry\<close>

lemma alist_update_map:
  "distinct (map fst al) \<Longrightarrow> k \<in> fst ` set al \<Longrightarrow>
   AList.update k v al = map (\<lambda>p. if fst p = k then (k, v) else p) al"
proof (induction al)
  case Nil
  then show ?case by simp
next
  case (Cons a al)
  show ?case
  proof (cases "fst a = k")
    case True
    then have "k \<notin> fst ` set al" using Cons.prems(1) by auto
    then have "map (\<lambda>p. if fst p = k then (k, v) else p) al = al"
      by (induction al) auto
    then show ?thesis using True by simp
  next
    case False
    then show ?thesis using Cons by auto
  qed
qed

lemma alist_delete_filter: "AList.delete k al = filter (\<lambda>p. fst p \<noteq> k) al"
  by (induction al) auto

lemma distinct_fst_unique:
  "distinct (map fst al) \<Longrightarrow> (k, v) \<in> set al \<Longrightarrow> (k, w) \<in> set al \<Longrightarrow> v = w"
  by (meson eq_key_imp_eq_value)

lemma advance_loop_lists:
  "snd (advance_loop year items reg G A) =
     (G @ map snd (filter (\<lambda>p. 13 \<le> grade_level_id (snd p)) items),
      A @ map (\<lambda>p. (snd p)\<lparr>grade_level_id := grade_level_id (snd p) + 1\<rparr>)
            (filter (\<lambda>p. grade_level_id (snd p) < 13) items))"
  by (induction items arbitrary: reg G A) (auto simp add: Let_def)

lemma advance_loop_other_fields:
  "transferred_students (fst (advance_loop year items reg G A)) = transferred_students reg
   \<and> student_id_counter (fst (advance_loop year items reg G A)) = student_id_counter reg"
  by (induction items arbitrary: reg G A) (auto simp add: Let_def)

lemma advance_loop_graduated:
  "graduated_students (fst (advance_loop year items reg G A)) =
     foldl (\<lambda>d p. AList.update (fst p) ((snd p)\<lparr>graduation_year := Some year\<rparr>) d)
       (graduated_students reg) (filter (\<lambda>p. 13 \<le> grade_level_id (snd p)) items)"
  by (induction items arbitrary: reg G A) (auto simp add: Let_def)

lemma advance_loop_active:
  assumes "distinct (map fst (active_students reg))" "distinct (map fst items)"
    "set items \<subseteq> set (active_students reg)"
  shows "active_students (fst (advance_loop year items reg G A)) =
     map (\<lambda>p. if p \<in> set items then (fst p, (snd p)\<lparr>grade_level_id := grade_level_id (snd p) + 1\<rparr>) else p)
       (filter (\<lambda>p. p \<in> set items \<longrightarrow> grade_level_id (snd p) < 13) (active_students reg))"
  using assms
proof (induction items arbitrary: reg G A)
  case Nil
  then show ?case by simp
next
  case (Cons a items)
  obtain k s where a: "a = (k, s)" by (cases a)
  let ?act = "active_students reg"
  have kin: "(k, s) \<in> set ?act" using Cons.prems(3) a by simp
  have uniq: "\<And>p. p \<in> set ?act \<Longrightarrow> fst p = k \<Longrightarrow> p = (k, s)"
    using distinct_fst_unique[OF Cons.prems(1) _ kin] by (metis prod.collapse)
  have knot: "\<And>p. p \<in> set items \<Longrightarrow> fst p \<noteq> k"
    using Cons.prems(2) a by force
  show ?case
  proof (cases "13 \<le> grade_level_id s")
    case True
    let ?reg1 = "reg\<lparr>graduated_students :=
                    AList.update k (s\<lparr>graduation_year := Some year\<rparr>) (graduated_students reg),
                  active_students := AList.delete k ?act\<rparr>"
    have d1: "distinct (map fst (active_students ?reg1))"
      using Cons.prems(1) by (simp add: distinct_delete)
    have s1: "set items \<subseteq> set (active_students ?reg1)"
      using Cons.prems(3) knot by (auto simp add: alist_delete_filter)
    have d2: "distinct (map fst items)" using Cons.prems(2) by simp
    have "active_students (fst (advance_loop year (a # items) reg G A)) =
          active_students (fst (advance_loop year items ?reg1 (G @ [s]) A))"
      using True a by (simp add: Let_def)
    also have "\<dots> = map (\<lambda>p. if p \<in> set items then (fst p, (snd p)\<lparr>grade_level_id := grade_level_id (snd p) + 1\<rparr>) else p)
       (filter (\<lambda>p. p \<in> set items \<longrightarrow> grade_level_id (snd p) < 13) (active_students ?reg1))"
      by (rule Cons.IH[OF d1 d2 s1])
    also have "\<dots> = map (\<lambda>p. if p \<in> set (a # items) then (fst p, (snd p)\<lparr>grade_level_id := grade_level_id (snd p) + 1\<rparr>) else p)
       (filter (\<lambda>p. p \<in> set (a # items) \<longrightarrow> grade_level_id (snd p) < 13) ?act)"
    proof -
      have f: "filter (\<lambda>p. p \<in> set items \<longrightarrow> grade_level_id (snd p) < 13) (active_students ?reg1)
            = filter (\<lambda>p. p \<in> set (a # items) \<longrightarrow> grade_level_id (snd p) < 13) ?act"
      proof -
        have pw: "(fst p \<noteq> k \<and> (p \<in> set items \<longrightarrow> grade_level_id (snd p) < 13))
                = (p \<in> set (a # items) \<longrightarrow> grade_level_id (snd p) < 13)"
          if "p \<in> set ?act" for p
        proof (cases "fst p = k")
          case T: True
          then have "p = (k, s)" using uniq that by blast
          then show ?thesis using True a by simp
        next
          case F: False
          then have "p \<noteq> a" using a by auto
          then show ?thesis using F by simp
        qed
        have "filter (\<lambda>p. fst p \<noteq> k \<and> (p \<in> set items \<longrightarrow> grade_level_id (snd p) < 13)) ?act
            = filter (\<lambda>p. p \<in> set (a # items) \<longrightarrow> grade_level_id (snd p) < 13) ?act"
          by (rule filter_cong[OF refl]) (rule pw)
        then show ?thesis by (simp add: alist_delete_filter)
      qed
      have m: "map (\<lambda>p. if p \<in> set items then (fst p, (snd p)\<lparr>grade_level_id := grade_level_id (snd p) + 1\<rparr>) else p)
                 (filter (\<lambda>p. p \<in> set (a # items) \<longrightarrow> grade_level_id (snd p) < 13) ?act)
             = map (\<lambda>p. if p \<in> set (a # items) then (fst p, (snd p)\<lparr>grade_level_id := grade_level_id (snd p) + 1\<rparr>) else p)
                 (filter (\<lambda>p. p \<in> set (a # items) \<longrightarrow> grade_level_id (snd p) < 13) ?act)"
      proof (rule map_cong[OF refl])
        fix p
        assume "p \<in> set (filter (\<lambda>p. p \<in> set (a # items) \<longrightarrow> grade_level_id (snd p) < 13) ?act)"
        then have "p \<noteq> a" using True a by auto
        then show "(if p \<in> set items then (fst p, (snd p)\<lparr>grade_level_id := grade_level_id (snd p) + 1\<rparr>) else p)
            = (if p \<in> set (a # items) then (fst p, (snd p)\<lparr>grade_level_id := grade_level_id (snd p) + 1\<rparr>) else p)"
          by simp
      qed
      show ?thesis using f m by simp
    qed
    finally show ?thesis .
  next
    case False
    let ?s' = "s\<lparr>grade_level_id := grade_level_id s + 1\<rparr>"
    let ?reg1 = "reg\<lparr>active_students := AList.update k ?s' ?act\<rparr>"
    have kk: "k \<in> fst ` set ?act" using kin by force
    have upd: "AList.update k ?s' ?act = map (\<lambda>p. if fst p = k then (k, ?s') else p) ?act"
      by (rule alist_update_map[OF Cons.prems(1) kk])
    have d1: "distinct (map fst (active_students ?reg1))"
      using Cons.prems(1) by (simp add: distinct_update)
    have s1: "set items \<subseteq> set (active_students ?reg1)"
      using Cons.prems(3) knot by (auto simp add: upd)
    have d2: "distinct (map fst items)" using Cons.prems(2) by simp
    have knot': "(k, ?s') \<notin> set items" "(k, s) \<notin> set items" using knot by force+
    have "active_students (fst (advance_loop year (a # items) reg G A)) =
          active_students (fst (advance_loop year items ?reg1 G (A @ [?s'])))"
      using False a by (simp add: Let_def)
    also have "\<dots> = map (\<lambda>p. if p \<in> set items then (fst p, (snd p)\<lparr>grade_level_id := grade_level_id (snd p) + 1\<rparr>) else p)
       (filter (\<lambda>p. p \<in> set items \<longrightarrow> grade_level_id (snd p) < 13) (active_students ?reg1))"
      by (rule Cons.IH[OF d1 d2 s1])
    also have "\<dots> = map (\<lambda>p. if p \<in> set (a # items) then (fst p, (snd p)\<lparr>grade_level_id := grade_level_id (snd p) + 1\<rparr>) else p)
       (filter (\<lambda>p. p \<in> set (a # items) \<longrightarrow> grade_level_id (snd p) < 13) ?act)"
    proof -
      let ?U = "\<lambda>p. if fst p = k then (k, ?s') else p"
      let ?fr = "\<lambda>p. if p \<in> set items then (fst p, (snd p)\<lparr>grade_level_id := grade_level_id (snd p) + 1\<rparr>) else p"
      let ?fa = "\<lambda>p. if p \<in> set (a # items) then (fst p, (snd p)\<lparr>grade_level_id := grade_level_id (snd p) + 1\<rparr>) else p"
      let ?Pr = "\<lambda>p. p \<in> set items \<longrightarrow> grade_level_id (snd p) < 13"
      let ?Pa = "\<lambda>p. p \<in> set (a # items) \<longrightarrow> grade_level_id (snd p) < 13"
      have pw: "?Pr (?U p) = ?Pa p \<and> ?fr (?U p) = ?fa p" if "p \<in> set ?act" for p
      proof (cases "fst p = k")
        case T: True
        then have "p = (k, s)" using uniq that by blast
        then show ?thesis using False a knot' by simp
      next
        case F: False
        then have "p \<noteq> a" using a by auto
        then show ?thesis using F by simp
      qed
      have "map ?fr (filter ?Pr (map ?U ?act)) = map (\<lambda>p. ?fr (?U p)) (filter (\<lambda>p. ?Pr (?U p)) ?act)"
        by (simp add: filter_map comp_def)
      also have "filter (\<lambda>p. ?Pr (?U p)) ?act = filter ?Pa ?act"
        by (rule filter_cong[OF refl]) (use pw in blast)
      also have "map (\<lambda>p. ?fr (?U p)) (filter ?Pa ?act) = map ?fa (filter ?Pa ?act)"
        by (rule map_cong[OF refl]) (use pw in simp)
      finally show ?thesis by (simp add: upd)
    qed
    finally show ?thesis .
  qed
qed


lemma advance_grade_levels_active:
  assumes "distinct (map fst (active_students reg))"
  shows "active_students (fst (advance_grade_levels reg year)) =
     map (\<lambda>p. (fst p, (snd p)\<lparr>grade_level_id := grade_level_id (snd p) + 1\<rparr>))
       (filter (\<lambda>p. grade_level_id (snd p) < 13) (active_students reg))"
proof -
  let ?act = "active_students reg"
  have "active_students (fst (advance_grade_levels reg year)) =
     map (\<lambda>p. if p \<in> set ?act then (fst p, (snd p)\<lparr>grade_level_id := grade_level_id (snd p) + 1\<rparr>) else p)
       (filter (\<lambda>p. p \<in> set ?act \<longrightarrow> grade_level_id (snd p) < 13) ?act)"
    unfolding advance_grade_levels_def
    by (rule advance_loop_active[OF assms assms subset_refl])
  also have "filter (\<lambda>p. p \<in> set ?act \<longrightarrow> grade_level_id (snd p) < 13) ?act
           = filter (\<lambda>p. grade_level_id (snd p) < 13) ?act"
    by (rule filter_cong[OF refl]) simp
  also have "map (\<lambda>p. if p \<in> set ?act then (fst p, (snd p)\<lparr>grade_level_id := grade_level_id (snd p) + 1\<rparr>) else p)
       (filter (\<lambda>p. grade_level_id (snd p) < 13) ?act)
      = map (\<lambda>p. (fst p, (snd p)\<lparr>grade_level_id := grade_level_id (snd p) + 1\<rparr>))
       (filter (\<lambda>p. grade_level_id (snd p) < 13) ?act)"
    by (rule map_cong[OF refl]) simp
  finally show ?thesis .
qed

lemma foldl_update_map_of:
  "distinct (map fst items) \<Longrightarrow>
   map_of (foldl (\<lambda>d p. AList.update (fst p) (f (snd p)) d) d0 items) k =
     (case map_of items k of Some s \<Rightarrow> Some (f s) | None \<Rightarrow> map_of d0 k)"
proof (induction items arbitrary: d0)
  case Nil
  then show ?case by simp
next
  case (Cons a items)
  have "fst a \<notin> fst ` set items" using Cons.prems by auto
  then have n: "map_of items (fst a) = None" by (simp add: map_of_eq_None_iff)
  show ?case
    using Cons.IH[of "AList.update (fst a) (f (snd a)) d0"] Cons.prems n
    by (cases a) (auto simp add: update_conv' split: option.splits)
qed

lemma map_of_filter_snd:
  "distinct (map fst al) \<Longrightarrow>
   map_of (filter (\<lambda>p. P (snd p)) al) k =
     (case map_of al k of Some s \<Rightarrow> if P s then Some s else None | None \<Rightarrow> None)"
proof (induction al)
  case Nil
  then show ?case by simp
next
  case (Cons a al)
  obtain k' s' where a: "a = (k', s')" by (cases a)
  have "k' \<notin> fst ` set al" using Cons.prems a by auto
  then have n: "map_of al k' = None" by (simp add: map_of_eq_None_iff)
  show ?case using Cons a n by (auto split: option.splits)
qed

lemma map_of_map_snd:
  "map_of (map (\<lambda>p. (fst p, f (snd p))) al) k = map_option f (map_of al k)"
  by (induction al) auto

text \<open>
  Claim C4. \<^verbatim>\<open>advance_grade_levels(year)\<close> returns the pair of lists (graduated,
  advanced): the active students at grade level 13 or more, and the others with the grade
  level incremented by 1. Every active student at grade level 13 or more leaves the
  active set and is in the graduated set with \<^verbatim>\<open>graduation_year = year\<close>; every other
  active student stays, with the grade level incremented by exactly 1. Consequently a
  student active before and after has \<open>grade_level + 1\<close>, and a student at grade 13 is
  absent from the active set afterwards.
\<close>

theorem advance_grade_levels_spec:
  assumes "distinct (map fst (active_students reg))"
  shows "fst (snd (advance_grade_levels reg year))
           = map snd (filter (\<lambda>p. 13 \<le> grade_level_id (snd p)) (active_students reg))
       \<and> snd (snd (advance_grade_levels reg year))
           = map (\<lambda>p. (snd p)\<lparr>grade_level_id := grade_level_id (snd p) + 1\<rparr>)
               (filter (\<lambda>p. grade_level_id (snd p) < 13) (active_students reg))
       \<and> (\<forall>k s. map_of (active_students reg) k = Some s \<longrightarrow>
             (if 13 \<le> grade_level_id s
              then map_of (active_students (fst (advance_grade_levels reg year))) k = None
                 \<and> map_of (graduated_students (fst (advance_grade_levels reg year))) k
                     = Some (s\<lparr>graduation_year := Some year\<rparr>)
              else map_of (active_students (fst (advance_grade_levels reg year))) k
                     = Some (s\<lparr>grade_level_id := grade_level_id s + 1\<rparr>)))
       \<and> (\<forall>k s'. map_of (active_students (fst (advance_grade_levels reg year))) k = Some s' \<longrightarrow>
             (\<exists>s. map_of (active_students reg) k = Some s
                  \<and> grade_level_id s' = grade_level_id s + 1))
       \<and> (\<forall>k s. map_of (active_students reg) k = Some s \<and> grade_level_id s = 13 \<longrightarrow>
             map_of (active_students (fst (advance_grade_levels reg year))) k = None)"
proof -
  let ?act = "active_students reg"
  let ?res = "advance_grade_levels reg year"
  let ?adv = "\<lambda>s::student. s\<lparr>grade_level_id := grade_level_id s + 1\<rparr>"
  have lists: "snd ?res = (map snd (filter (\<lambda>p. 13 \<le> grade_level_id (snd p)) ?act),
      map (\<lambda>p. ?adv (snd p)) (filter (\<lambda>p. grade_level_id (snd p) < 13) ?act))"
    unfolding advance_grade_levels_def using advance_loop_lists[of year ?act reg "[]" "[]"] by simp
  have act': "map_of (active_students (fst ?res)) k =
      (case map_of ?act k of Some s \<Rightarrow> if grade_level_id s < 13 then Some (?adv s) else None
       | None \<Rightarrow> None)" for k
    unfolding advance_grade_levels_active[OF assms]
    by (simp add: map_of_map_snd[of ?adv] map_of_filter_snd[OF assms, of "\<lambda>s. grade_level_id s < 13"]
        split: option.splits)
  have dg: "distinct (map fst (filter (\<lambda>p. 13 \<le> grade_level_id (snd p)) ?act))"
    using assms by (simp add: distinct_map_filter)
  have grad: "map_of (graduated_students (fst ?res)) k = Some (s\<lparr>graduation_year := Some year\<rparr>)"
    if "map_of ?act k = Some s" "13 \<le> grade_level_id s" for k s
    unfolding advance_grade_levels_def advance_loop_graduated
      foldl_update_map_of[OF dg, of "\<lambda>s. s\<lparr>graduation_year := Some year\<rparr>"]
    using that by (simp add: map_of_filter_snd[OF assms, of "\<lambda>s. 13 \<le> grade_level_id s"])
  have c3: "\<forall>k s. map_of ?act k = Some s \<longrightarrow>
             (if 13 \<le> grade_level_id s
              then map_of (active_students (fst ?res)) k = None
                 \<and> map_of (graduated_students (fst ?res)) k = Some (s\<lparr>graduation_year := Some year\<rparr>)
              else map_of (active_students (fst ?res)) k = Some (?adv s))"
    using grad by (auto simp add: act')
  have c4: "\<forall>k s'. map_of (active_students (fst ?res)) k = Some s' \<longrightarrow>
             (\<exists>s. map_of ?act k = Some s \<and> grade_level_id s' = grade_level_id s + 1)"
    by (auto simp add: act' split: option.splits if_splits)
  have c5: "\<forall>k s. map_of ?act k = Some s \<and> grade_level_id s = 13 \<longrightarrow>
             map_of (active_students (fst ?res)) k = None"
    by (auto simp add: act')
  show ?thesis using lists c3 c4 c5 by simp
qed


theorem advance_grade_levels_spec_witness:
  "distinct (map fst (active_students example_small_registry))
   \<and> map grade_level_id (fst (snd (advance_grade_levels example_small_registry 2016))) = [13]
   \<and> map grade_level_id (snd (snd (advance_grade_levels example_small_registry 2016))) = [6]
   \<and> map_of (active_students (fst (advance_grade_levels example_small_registry 2016))) 2 = None
   \<and> map_option graduation_year
        (map_of (graduated_students (fst (advance_grade_levels example_small_registry 2016))) 2)
        = Some (Some 2016)
   \<and> map_option grade_level_id
        (map_of (active_students (fst (advance_grade_levels example_small_registry 2016))) 1)
        = Some 6"
proof -
  have h: "distinct (map fst (active_students example_small_registry))"
    by (simp add: example_small_registry_def)
  have a: "active_students example_small_registry =
        [(1, example_sibling 1), (2, (example_sibling 2)\<lparr>grade_level_id := 13\<rparr>)]"
    by (simp add: example_small_registry_def)
  note t = advance_grade_levels_spec[OF h, of 2016]
  have l1: "map grade_level_id (fst (snd (advance_grade_levels example_small_registry 2016))) = [13]"
    using t unfolding a by (simp add: example_sibling_def)
  have l2: "map grade_level_id (snd (snd (advance_grade_levels example_small_registry 2016))) = [6]"
    using t unfolding a by (simp add: example_sibling_def)
  have m2: "map_of (active_students example_small_registry) 2
              = Some ((example_sibling 2)\<lparr>grade_level_id := 13\<rparr>)"
    unfolding a by simp
  have m1: "map_of (active_students example_small_registry) 1 = Some (example_sibling 1)"
    unfolding a by simp
  have g2: "map_of (active_students (fst (advance_grade_levels example_small_registry 2016))) 2 = None
      \<and> map_of (graduated_students (fst (advance_grade_levels example_small_registry 2016))) 2
           = Some ((example_sibling 2)\<lparr>grade_level_id := 13, graduation_year := Some 2016\<rparr>)"
    using t[THEN conjunct2, THEN conjunct2, THEN conjunct1, rule_format, OF m2] by simp
  have g1: "map_of (active_students (fst (advance_grade_levels example_small_registry 2016))) 1
           = Some ((example_sibling 1)\<lparr>grade_level_id := grade_level_id (example_sibling 1) + 1\<rparr>)"
    using t[THEN conjunct2, THEN conjunct2, THEN conjunct1, rule_format, OF m1]
    by (simp add: example_sibling_def)
  show ?thesis using h l1 l2 g1 g2 by (simp add: example_sibling_def)
qed

lemma first_with_family_found:
  "fid \<in> family_id ` set ss \<Longrightarrow> \<exists>s. first_with_family fid ss = Inr s \<and> s \<in> set ss \<and> family_id s = fid"
  by (induction ss) auto

lemma random_choice_ok:
  "seq \<noteq> [] \<Longrightarrow> \<exists>x g'. random_choice seq g = Inr (x, g') \<and> x \<in> set seq"
  by (simp add: random_choice_def randbelow_def)

lemma kindergarten_family_ok:
  "\<exists>fid lname g' fk'. kindergarten_family reg g fk = Inr (fid, lname, g', fk')"
proof -
  let ?fams = "map family_id (dict_values (active_students reg))"
  show ?thesis
  proof (cases "fst (random_random g) < d0_20 \<and> ?fams \<noteq> []")
    case True
    then obtain fid g2 where c: "random_choice ?fams (snd (random_random g)) = Inr (fid, g2)"
      and m: "fid \<in> set ?fams"
      using random_choice_ok[of ?fams "snd (random_random g)"] by blast
    from m obtain s where "first_with_family fid (dict_values (active_students reg)) = Inr s"
      using first_with_family_found[of fid "dict_values (active_students reg)"] by auto
    then show ?thesis using True c
      by (simp add: kindergarten_family_def case_prod_beta Let_def)
  next
    case False
    then show ?thesis
      by (auto simp add: kindergarten_family_def case_prod_beta Let_def)
  qed
qed

lemma enroll_one_ok:
  "\<exists>student g' fk'. enroll_one year reg g fk =
      Inr (reg\<lparr>active_students :=
                 AList.update (student_id_counter reg) student (active_students reg),
               student_id_counter := student_id_counter reg + 1\<rparr>, student, g', fk')
     \<and> grade_level_id student = 1 \<and> student_id student = student_id_counter reg
     \<and> enrollment_year student = year"
proof -
  obtain gen g1 where c: "random_choice [''M'', ''F''] g = Inr (gen, g1)"
    using random_choice_ok[of "[''M'', ''F'']" g] by auto
  obtain fid lname g2 fk3 where k:
    "kindergarten_family reg g1 (snd (fake_next (snd (fake_next fk)))) = Inr (fid, lname, g2, fk3)"
    using kindergarten_family_ok by blast
  show ?thesis
    using c k by (simp add: enroll_one_def case_prod_beta Let_def)
qed

lemma alist_update_fresh: "k \<notin> fst ` set al \<Longrightarrow> AList.update k v al = al @ [(k, v)]"
  by (induction al) auto

lemma enroll_loop_ok:
  assumes "\<forall>k \<in> fst ` set (active_students reg). k < student_id_counter reg"
  shows "\<exists>reg' added g' fk'.
      enroll_loop year n reg news g fk = Inr (reg', news @ map snd added, g', fk')
    \<and> active_students reg' = active_students reg @ added
    \<and> length added = n
    \<and> map fst added = map (\<lambda>i. student_id_counter reg + int i) [0..<n]
    \<and> (\<forall>p \<in> set added. grade_level_id (snd p) = 1 \<and> student_id (snd p) = fst p)
    \<and> student_id_counter reg' = student_id_counter reg + int n
    \<and> graduated_students reg' = graduated_students reg
    \<and> transferred_students reg' = transferred_students reg"
  using assms
proof (induction n arbitrary: reg news g fk)
  case 0
  then show ?case by simp
next
  case (Suc n)
  obtain student g1 fk1 where e: "enroll_one year reg g fk =
      Inr (reg\<lparr>active_students :=
                 AList.update (student_id_counter reg) student (active_students reg),
               student_id_counter := student_id_counter reg + 1\<rparr>, student, g1, fk1)"
    and st: "grade_level_id student = 1" "student_id student = student_id_counter reg"
    using enroll_one_ok by blast
  let ?c = "student_id_counter reg"
  let ?reg1 = "reg\<lparr>active_students := AList.update ?c student (active_students reg),
               student_id_counter := ?c + 1\<rparr>"
  have fresh: "?c \<notin> fst ` set (active_students reg)" using Suc.prems by auto
  have a1: "active_students ?reg1 = active_students reg @ [(?c, student)]"
    using alist_update_fresh[OF fresh] by simp
  have inv1: "\<forall>k \<in> fst ` set (active_students ?reg1). k < student_id_counter ?reg1"
    using Suc.prems by (auto simp add: a1)
  from Suc.IH[OF inv1, of "news @ [student]" g1 fk1]
  obtain reg' added g' fk' where
    l: "enroll_loop year n ?reg1 (news @ [student]) g1 fk1 = Inr (reg', (news @ [student]) @ map snd added, g', fk')"
    and a: "active_students reg' = active_students ?reg1 @ added"
    and len: "length added = n"
    and keys: "map fst added = map (\<lambda>i. student_id_counter ?reg1 + int i) [0..<n]"
    and gr: "\<forall>p \<in> set added. grade_level_id (snd p) = 1 \<and> student_id (snd p) = fst p"
    and c: "student_id_counter reg' = student_id_counter ?reg1 + int n"
    and o: "graduated_students reg' = graduated_students ?reg1"
       "transferred_students reg' = transferred_students ?reg1"
    by blast
  let ?added = "(?c, student) # added"
  have k2: "map fst ?added = map (\<lambda>i. ?c + int i) [0..<Suc n]"
  proof -
    have u: "[0..<Suc n] = 0 # map Suc [0..<n]"
      by (simp add: upt_conv_Cons map_Suc_upt del: upt_Suc)
    have "map (\<lambda>i. ?c + int i) [0..<Suc n] = ?c # map (\<lambda>i. ?c + 1 + int i) [0..<n]"
      unfolding u by (simp add: comp_def add.assoc)
    then show ?thesis using keys by simp
  qed
  have "enroll_loop year (Suc n) reg news g fk = Inr (reg', news @ map snd ?added, g', fk')"
    using e l by simp
  moreover have "active_students reg' = active_students reg @ ?added" using a a1 by simp
  moreover have "length ?added = Suc n" using len by simp
  moreover have "\<forall>p \<in> set ?added. grade_level_id (snd p) = 1 \<and> student_id (snd p) = fst p"
    using gr st by simp
  moreover have "student_id_counter reg' = ?c + int (Suc n)" using c by simp
  moreover have "graduated_students reg' = graduated_students reg"
    "transferred_students reg' = transferred_students reg" using o by simp_all
  ultimately show ?case using k2 by blast
qed


lemma advance_then_enroll:
  assumes d: "distinct (map fst (active_students reg))"
    and c: "\<forall>k \<in> fst ` set (active_students reg). k < student_id_counter reg"
  shows "\<exists>reg' new_students g' fk'.
      enroll_new_kindergarteners (fst (advance_grade_levels reg year)) year count g fk
        = Inr (reg', new_students, g', fk')
    \<and> length (active_students reg')
        = length (filter (\<lambda>p. grade_level_id (snd p) < 13) (active_students reg)) + nat count
    \<and> length new_students = nat count
    \<and> fst ` set (active_students reg') \<inter> fst ` set (active_students reg)
        = fst ` set (filter (\<lambda>p. grade_level_id (snd p) < 13) (active_students reg))
    \<and> grade_count 13 (active_students reg') = grade_count 12 (active_students reg)"
proof -
  let ?act = "active_students reg"
  let ?reg1 = "fst (advance_grade_levels reg year)"
  let ?keep = "filter (\<lambda>p. grade_level_id (snd p) < 13) ?act"
  let ?adv = "\<lambda>p::int \<times> student. (fst p, (snd p)\<lparr>grade_level_id := grade_level_id (snd p) + 1\<rparr>)"
  have a1: "active_students ?reg1 = map ?adv ?keep"
    by (rule advance_grade_levels_active[OF d])
  have c1: "student_id_counter ?reg1 = student_id_counter reg"
    unfolding advance_grade_levels_def using advance_loop_other_fields by blast
  have k1: "fst ` set (active_students ?reg1) = fst ` set ?keep"
    unfolding a1 by (simp add: image_image)
  have inv1: "\<forall>k \<in> fst ` set (active_students ?reg1). k < student_id_counter ?reg1"
    unfolding k1 c1 using c by auto
  from enroll_loop_ok[OF inv1, of year "nat count" "[]" g fk]
  obtain reg' added g' fk' where
    l: "enroll_loop year (nat count) ?reg1 [] g fk = Inr (reg', [] @ map snd added, g', fk')"
    and a: "active_students reg' = active_students ?reg1 @ added"
    and len: "length added = nat count"
    and keys: "map fst added = map (\<lambda>i. student_id_counter ?reg1 + int i) [0..<nat count]"
    and gr: "\<forall>p \<in> set added. grade_level_id (snd p) = 1 \<and> student_id (snd p) = fst p"
    by blast
  have fresh: "fst ` set added \<inter> fst ` set ?act = {}"
  proof -
    have "fst ` set added = set (map fst added)" by simp
    also have "\<dots> = (\<lambda>i. student_id_counter reg + int i) ` {0..<nat count}"
      unfolding keys c1 by simp
    finally have e: "fst ` set added = (\<lambda>i. student_id_counter reg + int i) ` {0..<nat count}" .
    show ?thesis
    proof (rule ccontr)
      assume "fst ` set added \<inter> fst ` set ?act \<noteq> {}"
      then obtain k where k1: "k \<in> fst ` set added" and k2: "k \<in> fst ` set ?act" by blast
      from k1 e obtain i where "k = student_id_counter reg + int i" by blast
      moreover from k2 c have "k < student_id_counter reg" by blast
      ultimately show False by simp
    qed
  qed
  have g13a: "filter (\<lambda>p. grade_level_id (snd p) = 13) added = []"
    using gr by (auto simp add: filter_empty_conv)
  have g13k: "length (filter (\<lambda>p. grade_level_id (snd p) = 13) (map ?adv ?keep))
            = length (filter (\<lambda>p. grade_level_id (snd p) = 12) ?act)"
  proof -
    have "filter (\<lambda>p. grade_level_id (snd p) = 13) (map ?adv ?keep)
        = map ?adv (filter (\<lambda>p. grade_level_id (snd p) + 1 = 13) ?keep)"
      by (simp add: filter_map comp_def)
    also have "filter (\<lambda>p. grade_level_id (snd p) + 1 = 13) ?keep
        = filter (\<lambda>p. grade_level_id (snd p) = 12) ?act"
      by (simp) (rule filter_cong[OF refl], auto)
    finally show ?thesis by simp
  qed
  have "enroll_new_kindergarteners ?reg1 year count g fk = Inr (reg', map snd added, g', fk')"
    using l by (simp add: enroll_new_kindergarteners_def)
  moreover have "length (active_students reg') = length ?keep + nat count"
    using a a1 len by simp
  moreover have "length (map snd added) = nat count" using len by simp
  moreover have "fst ` set (active_students reg') \<inter> fst ` set ?act = fst ` set ?keep"
    using fresh k1 a by (auto simp add: image_Un)
  moreover have "grade_count 13 (active_students reg') = grade_count 12 ?act"
    unfolding grade_count_def a a1 using g13a g13k by simp
  ultimately show ?thesis by blast
qed

lemma load_baseline_students_inv:
  "distinct (map fst (active_students reg)) \<Longrightarrow>
   \<forall>k \<in> fst ` set (active_students reg). k < student_id_counter reg \<Longrightarrow>
   distinct (map fst (active_students (load_baseline_students reg rows)))
   \<and> (\<forall>k \<in> fst ` set (active_students (load_baseline_students reg rows)).
         k < student_id_counter (load_baseline_students reg rows))"
proof (induction rows arbitrary: reg)
  case Nil
  then show ?case by simp
next
  case (Cons row rows)
  show ?case
    unfolding load_baseline_students.simps
  proof (rule Cons.IH)
    show "distinct (map fst (active_students (reg\<lparr>active_students :=
              AList.update (b_student_id row)
                \<lparr>student_id = b_student_id row, first_name = b_first_name row,
                 last_name = b_last_name row, gender = b_gender row,
                 date_of_birth = b_date_of_birth row, grade_level_id = b_grade_level_id row,
                 enrollment_year = 2015, family_id = family_name (b_student_id row),
                 graduation_year = None, transfer_year = None, is_transfer = False\<rparr>
                (active_students reg),
            student_id_counter := max (student_id_counter reg) (b_student_id row + 1)\<rparr>)))"
      using Cons.prems(1) by (simp add: distinct_update)
  next
    show "\<forall>k\<in>fst ` set (active_students (reg\<lparr>active_students :=
              AList.update (b_student_id row)
                \<lparr>student_id = b_student_id row, first_name = b_first_name row,
                 last_name = b_last_name row, gender = b_gender row,
                 date_of_birth = b_date_of_birth row, grade_level_id = b_grade_level_id row,
                 enrollment_year = 2015, family_id = family_name (b_student_id row),
                 graduation_year = None, transfer_year = None, is_transfer = False\<rparr>
                (active_students reg),
            student_id_counter := max (student_id_counter reg) (b_student_id row + 1)\<rparr>)).
        k < student_id_counter (reg\<lparr>active_students :=
              AList.update (b_student_id row)
                \<lparr>student_id = b_student_id row, first_name = b_first_name row,
                 last_name = b_last_name row, gender = b_gender row,
                 date_of_birth = b_date_of_birth row, grade_level_id = b_grade_level_id row,
                 enrollment_year = 2015, family_id = family_name (b_student_id row),
                 graduation_year = None, transfer_year = None, is_transfer = False\<rparr>
                (active_students reg),
            student_id_counter := max (student_id_counter reg) (b_student_id row + 1)\<rparr>)"
      using Cons.prems(2) by (auto simp add: dom_update)
  qed
qed

lemma load_baseline_students_fresh:
  "distinct (map b_student_id rows) \<Longrightarrow>
   set (map b_student_id rows) \<inter> fst ` set (active_students reg) = {} \<Longrightarrow>
   map (\<lambda>p. (fst p, grade_level_id (snd p))) (active_students (load_baseline_students reg rows))
     = map (\<lambda>p. (fst p, grade_level_id (snd p))) (active_students reg)
       @ map (\<lambda>r. (b_student_id r, b_grade_level_id r)) rows"
proof (induction rows arbitrary: reg)
  case Nil
  then show ?case by simp
next
  case (Cons row rows)
  have fresh: "b_student_id row \<notin> fst ` set (active_students reg)"
    using Cons.prems(2) by auto
  show ?case
    unfolding load_baseline_students.simps
    apply (subst Cons.IH)
    using Cons.prems fresh
      apply (simp_all add: alist_update_fresh dom_update)
    done
qed


lemma grade_count_proj:
  "grade_count gl d = length (filter (\<lambda>q. snd q = gl) (map (\<lambda>p. (fst p, grade_level_id (snd p))) d))"
  by (simp add: grade_count_def filter_map comp_def)

lemma example_baseline_grades:
  "map (\<lambda>p. (fst p, grade_level_id (snd p))) (active_students example_baseline)
     = map (\<lambda>i. (int i, int (i mod 13) + 1)) [1..<501]"
proof -
  have "map (\<lambda>p. (fst p, grade_level_id (snd p))) (active_students example_baseline)
     = map (\<lambda>p. (fst p, grade_level_id (snd p))) (active_students new_student_registry)
       @ map (\<lambda>r. (b_student_id r, b_grade_level_id r)) (map example_baseline_row [1..<501])"
    unfolding example_baseline_def
    by (rule load_baseline_students_fresh)
       (simp_all add: new_student_registry_def comp_def example_baseline_row_def distinct_map inj_on_def)
  then show ?thesis
    by (simp add: new_student_registry_def comp_def example_baseline_row_def)
qed

lemma example_baseline_inv:
  "distinct (map fst (active_students example_baseline))
   \<and> (\<forall>k \<in> fst ` set (active_students example_baseline). k < student_id_counter example_baseline)"
  unfolding example_baseline_def
  by (rule load_baseline_students_inv) (simp_all add: new_student_registry_def)

lemma example_baseline_length: "length (active_students example_baseline) = 500"
proof -
  have "length (map (\<lambda>p. (fst p, grade_level_id (snd p))) (active_students example_baseline)) = 500"
    unfolding example_baseline_grades by simp
  then show ?thesis by simp
qed

lemma example_count_12: "length (filter (\<lambda>q. snd q = 12) (map (\<lambda>i. (int i, int (i mod 13) + 1)) [1..<501])) = 38"
  by code_simp

lemma example_count_13: "length (filter (\<lambda>q. snd q = 13) (map (\<lambda>i. (int i, int (i mod 13) + 1)) [1..<501])) = 38"
  by code_simp

lemma example_baseline_count_12: "grade_count 12 (active_students example_baseline) = 38"
  unfolding grade_count_proj example_baseline_grades by (rule example_count_12)

lemma example_baseline_count_13: "grade_count 13 (active_students example_baseline) = 38"
  unfolding grade_count_proj example_baseline_grades by (rule example_count_13)

lemma example_baseline_range:
  "list_all (\<lambda>p. 1 \<le> grade_level_id (snd p) \<and> grade_level_id (snd p) \<le> 13) (active_students example_baseline)"
proof -
  have "list_all (\<lambda>q. 1 \<le> snd q \<and> snd q \<le> 13)
          (map (\<lambda>p. (fst p, grade_level_id (snd p))) (active_students example_baseline))"
  proof -
    have "i mod 13 \<le> 12" for i :: nat
    proof -
      have "i mod 13 < 13" by simp
      then show ?thesis by linarith
    qed
    then show ?thesis
      unfolding example_baseline_grades by (simp add: list_all_iff)
  qed
  then show ?thesis by (simp add: list_all_iff)
qed


text \<open>
  Claim C5, as amended. For a registry of 500 active students with grade levels 1 to 13
  (distinct ids, all below the id counter, as \<^verbatim>\<open>load_baseline_students\<close> leaves
  them), \<^verbatim>\<open>advance_grade_levels(year)\<close> followed by
  \<^verbatim>\<open>enroll_new_kindergarteners(year, 42)\<close> returns, and the active count is 500 minus
  the number of students that were at grade 13, plus 42. No student who was at grade 13
  is active afterwards; the students at grade 13 afterwards are as many as were at
  grade 12 before.
\<close>

theorem advance_then_enroll_count:
  assumes "distinct (map fst (active_students reg))"
    and "\<forall>k \<in> fst ` set (active_students reg). k < student_id_counter reg"
    and "length (active_students reg) = 500"
    and "\<forall>p \<in> set (active_students reg). 1 \<le> grade_level_id (snd p) \<and> grade_level_id (snd p) \<le> 13"
  shows "\<exists>reg' new_students g' fk'.
      enroll_new_kindergarteners (fst (advance_grade_levels reg year)) year 42 g fk
        = Inr (reg', new_students, g', fk')
    \<and> int (length (active_students reg'))
        = 500 - int (grade_count 13 (active_students reg)) + 42
    \<and> (\<forall>p \<in> set (active_students reg).
          grade_level_id (snd p) = 13 \<longrightarrow> fst p \<notin> fst ` set (active_students reg'))
    \<and> grade_count 13 (active_students reg') = grade_count 12 (active_students reg)"
proof -
  let ?act = "active_students reg"
  let ?keep = "filter (\<lambda>p. grade_level_id (snd p) < 13) ?act"
  from advance_then_enroll[OF assms(1,2), of year 42 g fk]
  obtain reg' new_students g' fk' where
    e: "enroll_new_kindergarteners (fst (advance_grade_levels reg year)) year 42 g fk
        = Inr (reg', new_students, g', fk')"
    and l: "length (active_students reg') = length ?keep + nat 42"
    and k: "fst ` set (active_students reg') \<inter> fst ` set ?act = fst ` set ?keep"
    and c: "grade_count 13 (active_students reg') = grade_count 12 ?act"
    by blast
  have "filter (\<lambda>p. \<not> grade_level_id (snd p) < 13) ?act = filter (\<lambda>p. grade_level_id (snd p) = 13) ?act"
    by (rule filter_cong[OF refl]) (use assms(4) in force)
  then have "length ?keep + grade_count 13 ?act = length ?act"
    unfolding grade_count_def using sum_length_filter_compl[of "\<lambda>p. grade_level_id (snd p) < 13" ?act]
    by simp
  then have n: "int (length (active_students reg')) = 500 - int (grade_count 13 ?act) + 42"
    using l assms(3) by simp
  have g: "\<forall>p \<in> set ?act. grade_level_id (snd p) = 13 \<longrightarrow> fst p \<notin> fst ` set (active_students reg')"
  proof (intro ballI impI notI)
    fix p
    assume p: "p \<in> set ?act" and g13: "grade_level_id (snd p) = 13"
      and "fst p \<in> fst ` set (active_students reg')"
    then have "fst p \<in> fst ` set ?keep" using k by blast
    then obtain q where q: "q \<in> set ?act" "grade_level_id (snd q) < 13" "fst q = fst p" by auto
    then have "q = p" using assms(1) p by (metis distinct_fst_unique prod.collapse)
    then show False using q g13 by simp
  qed
  show ?thesis using e n g c by blast
qed

theorem advance_then_enroll_count_witness:
  "length (active_students example_baseline) = 500
   \<and> grade_count 13 (active_students example_baseline) = 38
   \<and> map_sum id (\<lambda>r. length (active_students (fst r)))
        (enroll_new_kindergarteners (fst (advance_grade_levels example_baseline 2016)) 2016 42
           example_rng example_faker) = Inr 504"
proof -
  have h4: "\<forall>p \<in> set (active_students example_baseline).
              1 \<le> grade_level_id (snd p) \<and> grade_level_id (snd p) \<le> 13"
    using example_baseline_range by (simp add: list_all_iff)
  from advance_then_enroll_count[OF example_baseline_inv[THEN conjunct1]
      example_baseline_inv[THEN conjunct2] example_baseline_length h4, of 2016 example_rng example_faker]
  show ?thesis
    using example_baseline_length example_baseline_count_13 by auto
qed

text \<open>
  The claim as stated also says that no active student is at grade 13 afterwards. In the
  baseline of 500 students spread over the grades 1 to 13, the 38 students of grade 12 are
  at grade 13 after the two calls.
\<close>

theorem grade13_remains_counterexample:
  "length (active_students example_baseline) = 500
   \<and> list_all (\<lambda>p. 1 \<le> grade_level_id (snd p) \<and> grade_level_id (snd p) \<le> 13)
        (active_students example_baseline)
   \<and> map_sum id (\<lambda>r. grade_count 13 (active_students (fst r)))
        (enroll_new_kindergarteners (fst (advance_grade_levels example_baseline 2016)) 2016 42
           example_rng example_faker) = Inr 38"
proof -
  from advance_then_enroll[OF example_baseline_inv[THEN conjunct1]
      example_baseline_inv[THEN conjunct2], of 2016 42 example_rng example_faker]
  show ?thesis
    using example_baseline_length example_baseline_count_12 example_baseline_range by auto
qed


section \<open>Properties of the guardian registry\<close>

lemma family_name_1: "family_name 1 = ''FAM0''"
  by (simp add: family_name_def str_int_def digit_char_def)

lemma family_name_2: "family_name 2 = ''FAM0''"
  by (simp add: family_name_def str_int_def digit_char_def)

lemma str_int_1: "str_int 1 = ''1''"
  by (simp add: str_int_def digit_char_def)

lemma low_rng_random: "random_random low_rng = (0, low_rng)"
  by (simp add: random_random_def low_rng_def rng_tail_def)

lemma example_faker_next: "fake_next example_faker = (''Lovelace'', example_faker)"
  by (simp add: fake_next_def example_faker_def rng_tail_def)

lemma add_guardian_parent:
  "add_guardian reg key sid fid type_id (Some l) example_faker =
     (reg\<lparr>guardians := AList.update (guardian_id_counter reg)
              \<lparr>guardian_id = guardian_id_counter reg, gd_first_name = ''Lovelace'',
               gd_last_name = l, email = ''Lovelace'', phone = ''Lovelace''\<rparr> (guardians reg),
          student_guardians := AList.update key
              \<lparr>r_student_id = sid, r_guardian_id = guardian_id_counter reg,
               guardian_type_id = type_id, r_family_id = fid\<rparr> (student_guardians reg),
          guardian_id_counter := guardian_id_counter reg + 1\<rparr>,
      \<lparr>guardian_id = guardian_id_counter reg, gd_first_name = ''Lovelace'',
               gd_last_name = l, email = ''Lovelace'', phone = ''Lovelace''\<rparr>,
      \<lparr>r_student_id = sid, r_guardian_id = guardian_id_counter reg,
               guardian_type_id = type_id, r_family_id = fid\<rparr>, example_faker)"
  by (simp add: add_guardian_def example_faker_next Let_def)

lemma low_thresholds: "0 < d0_60" "0 < d0_65"
  by (simp_all add: d0_60_def d0_65_def)

lemma first_sibling_guardians:
  "guardians_for_student (example_sibling 1) new_guardian_registry [] [] low_rng example_faker
   = Inr (two_parent_registry, [example_guardian 1, example_guardian 2],
          [example_rel 1 1 1, example_rel 1 2 2], low_rng, example_faker)"
  by (simp add: guardians_for_student_def Let_def example_sibling_def new_guardian_registry_def
      dict_keys_def dict_values_def low_rng_random add_guardian_parent family_name_1 str_int_1
      two_parent_registry_def example_guardian_def example_rel_def low_thresholds)

lemma second_sibling_guardians:
  "guardians_for_student (example_sibling 2) two_parent_registry gds sgs low_rng example_faker
   = Inr (sibling_registry, gds, sgs @ [example_rel 2 1 1, example_rel 2 2 2], low_rng,
          example_faker)"
  by (simp add: guardians_for_student_def Let_def example_sibling_def
      dict_keys_def dict_values_def family_name_2
      two_parent_registry_def sibling_registry_def example_guardian_def example_rel_def)

lemma generate_two_parent:
  "generate_guardians_for_students new_guardian_registry [example_sibling 1] low_rng example_faker
   = Inr (two_parent_registry, [example_guardian 1, example_guardian 2],
          [example_rel 1 1 1, example_rel 1 2 2], low_rng, example_faker)"
  by (simp add: generate_guardians_for_students_def first_sibling_guardians)

lemma generate_siblings:
  "generate_guardians_for_students new_guardian_registry [example_sibling 1, example_sibling 2]
     low_rng example_faker
   = Inr (sibling_registry, [example_guardian 1, example_guardian 2],
          [example_rel 1 1 1, example_rel 1 2 2, example_rel 2 1 1, example_rel 2 2 2],
          low_rng, example_faker)"
  by (simp add: generate_guardians_for_students_def first_sibling_guardians
      second_sibling_guardians)

text \<open>
  Claim C8 says that two processed students of one family are related to the same set of
  guardians in \<^verbatim>\<open>student_guardians\<close>. The code does otherwise: the students 1 and 2 are of
  the family \<^verbatim>\<open>FAM0\<close>; student 1 gets a two-parent family, the guardians 1 and 2; for
  student 2 the sibling branch builds one relationship per guardian and stores each under
  the same key, so that only the last one, to guardian 2, is in the registry. No guardian
  is created for student 2.
\<close>

theorem sibling_guardians_differ:
  "family_id (example_sibling 1) = family_id (example_sibling 2)
   \<and> map_sum id (\<lambda>r. (guardian_ids_of (fst r) 1, guardian_ids_of (fst r) 2,
                        map guardian_id (fst (snd r))))
        (generate_guardians_for_students new_guardian_registry
           [example_sibling 1, example_sibling 2] low_rng example_faker)
      = Inr ([1, 2], [2], [1, 2])"
proof -
  have f: "family_id (example_sibling 1) = family_id (example_sibling 2)"
    by (simp add: example_sibling_def family_name_1 family_name_2)
  show ?thesis
    unfolding generate_siblings using f
    by (simp add: guardian_ids_of_def sibling_registry_def dict_values_def
        example_rel_def example_guardian_def)
qed

text \<open>
  Claim C9 says that after \<^verbatim>\<open>remove_student_guardians(student_id)\<close> no relationship of
  the student is left in \<^verbatim>\<open>student_guardians\<close>. The code does otherwise for a student of
  a two-parent family: the relationships are stored under the string keys
  \<^verbatim>\<open>"1_1"\<close> and \<^verbatim>\<open>"1_2"\<close>, the function deletes the integer key only, and both
  relationships of student 1 stay, while the guardians 1 and 2 are moved to the archive.
\<close>

theorem two_parent_relationships_remain:
  "map_sum id fst (generate_guardians_for_students new_guardian_registry [example_sibling 1]
       low_rng example_faker) = Inr two_parent_registry
   \<and> guardian_ids_of two_parent_registry 1 = [1, 2]
   \<and> guardian_ids_of (remove_student_guardians two_parent_registry 1) 1 = [1, 2]
   \<and> student_guardians (remove_student_guardians two_parent_registry 1)
        = student_guardians two_parent_registry
   \<and> dict_keys (guardians (remove_student_guardians two_parent_registry 1)) = []
   \<and> dict_keys (transferred_guardians (remove_student_guardians two_parent_registry 1)) = [1, 2]"
proof -
  have r: "remove_student_guardians two_parent_registry 1
         = two_parent_registry\<lparr>guardians := [],
             transferred_guardians := [(1, example_guardian 1), (2, example_guardian 2)]\<rparr>"
    by (simp add: remove_student_guardians_def two_parent_registry_def dict_values_def
        dict_keys_def example_rel_def Let_def)
  show ?thesis
    unfolding r
    by (simp add: generate_two_parent guardian_ids_of_def two_parent_registry_def
        dict_values_def dict_keys_def example_rel_def)
qed

section \<open>Properties of the teacher registry\<close>

lemma length_delete_present:
  "distinct (map fst al) \<Longrightarrow> k \<in> fst ` set al \<Longrightarrow> Suc (length (AList.delete k al)) = length al"
proof (induction al)
  case Nil
  then show ?case by simp
next
  case (Cons a al)
  show ?case
  proof (cases "fst a = k")
    case True
    then have "k \<notin> fst ` set al" using Cons.prems(1) by auto
    then have "AList.delete k al = al"
      by (simp add: alist_delete_filter filter_id_conv) force
    then show ?thesis using True by (simp add: alist_delete_filter)
  next
    case False
    then show ?thesis using Cons by (auto simp add: alist_delete_filter)
  qed
qed

lemma departures_loop_ok:
  assumes "distinct (map fst (active_teachers reg))"
    and "distinct (map teacher_id ts)"
    and "\<forall>t \<in> set ts. teacher_id t \<in> fst ` set (active_teachers reg)"
  shows "\<exists>reg' ret res g'.
      departures_loop year ts reg retirements resignations g = Inr (reg', ret, res, g')
    \<and> active_teachers reg' =
        filter (\<lambda>p. fst p \<notin> teacher_id ` set ts) (active_teachers reg)
    \<and> length (active_teachers reg') + length ts = length (active_teachers reg)
    \<and> teacher_id_counter reg' = teacher_id_counter reg"
  using assms
proof (induction ts arbitrary: reg retirements resignations g)
  case Nil
  then show ?case by simp
next
  case (Cons t ts)
  let ?k = "teacher_id t"
  let ?act = "active_teachers reg"
  obtain retires g1 where c: "(if 25 \<le> years_experience t then (True, g)
            else (case random_random g of (r, g') \<Rightarrow> (r < d0_3, g'))) = (retires, g1)"
    by (cases "(if 25 \<le> years_experience t then (True, g)
            else (case random_random g of (r, g') \<Rightarrow> (r < d0_3, g')))") auto
  obtain reg1 ret1 res1 where r: "(if retires then
                   (reg\<lparr>retired_teachers :=
                          AList.update (teacher_id t) (t\<lparr>retirement_year := Some year\<rparr>)
                            (retired_teachers reg)\<rparr>,
                    retirements @ [t], resignations)
                 else
                   (reg\<lparr>former_teachers :=
                          AList.update (teacher_id t) (t\<lparr>departure_year := Some year\<rparr>)
                            (former_teachers reg)\<rparr>,
                    retirements, resignations @ [t])) = (reg1, ret1, res1)"
    and a1: "active_teachers reg1 = ?act" and c1: "teacher_id_counter reg1 = teacher_id_counter reg"
    by (cases retires) auto
  have kin: "?k \<in> fst ` set ?act" using Cons.prems(3) by simp
  then have del: "dict_del ?k (active_teachers reg1) = Inr (AList.delete ?k ?act)"
    by (simp add: dict_del_def dict_keys_def a1)
  let ?reg2 = "reg1\<lparr>active_teachers := AList.delete ?k ?act\<rparr>"
  have step: "departures_loop year (t # ts) reg retirements resignations g
            = departures_loop year ts ?reg2 ret1 res1 g1"
    using c r del by simp
  have d2: "distinct (map fst (active_teachers ?reg2))"
    using Cons.prems(1) by (simp add: distinct_delete)
  have dts: "distinct (map teacher_id ts)" using Cons.prems(2) by simp
  have in2: "\<forall>t' \<in> set ts. teacher_id t' \<in> fst ` set (active_teachers ?reg2)"
  proof
    fix t' assume t': "t' \<in> set ts"
    then have "teacher_id t' \<in> teacher_id ` set ts" by (rule imageI)
    then have "teacher_id t' \<noteq> ?k" using Cons.prems(2) by auto
    moreover have "teacher_id t' \<in> fst ` set ?act" using Cons.prems(3) t' by simp
    ultimately show "teacher_id t' \<in> fst ` set (active_teachers ?reg2)"
      by (auto simp add: alist_delete_filter)
  qed
  from Cons.IH[OF d2 dts in2, of ret1 res1 g1]
  obtain reg' ret res g' where
    l: "departures_loop year ts ?reg2 ret1 res1 g1 = Inr (reg', ret, res, g')"
    and a: "active_teachers reg' =
        filter (\<lambda>p. fst p \<notin> teacher_id ` set ts) (active_teachers ?reg2)"
    and n: "length (active_teachers reg') + length ts = length (active_teachers ?reg2)"
    and cc: "teacher_id_counter reg' = teacher_id_counter ?reg2"
    by blast
  have "active_teachers reg' = filter (\<lambda>p. fst p \<notin> teacher_id ` set (t # ts)) ?act"
    unfolding a by (simp add: alist_delete_filter conj_commute)
  moreover have "length (active_teachers reg') + length (t # ts) = length ?act"
    using n length_delete_present[OF Cons.prems(1) kin] by simp
  moreover have "teacher_id_counter reg' = teacher_id_counter reg" using cc c1 by simp
  ultimately show ?case using step l by simp
qed

lemma accumulate_ge_one:
  "nearest_rounding fl \<Longrightarrow> 0 \<le> acc \<Longrightarrow> \<forall>w \<in> set ws. 1 \<le> w \<Longrightarrow>
   \<forall>c \<in> set (accumulate fl acc ws). 1 \<le> c"
proof (induction ws arbitrary: acc)
  case Nil
  then show ?case by simp
next
  case (Cons w ws)
  have "1 \<le> acc + w" using Cons.prems by simp
  then have f: "1 \<le> fl (acc + w)" by (rule fl_ge_double[OF Cons.prems(1) is_double_1])
  then have "0 \<le> fl (acc + w)" by simp
  then have "\<forall>c \<in> set (accumulate fl (fl (acc + w)) ws). 1 \<le> c"
    using Cons.prems by (intro Cons.IH) simp_all
  then show ?case using f by simp
qed

lemma length_accumulate: "length (accumulate fl acc ws) = length ws"
  by (induction ws arbitrary: acc) auto

lemma cum_weights_of_ok:
  assumes "nearest_rounding fl" "ws \<noteq> []" "\<forall>w \<in> set ws. 1 \<le> w"
  shows "length (cum_weights_of fl ws) = length ws \<and> 1 \<le> last (cum_weights_of fl ws)"
proof -
  obtain w ws' where ws: "ws = w # ws'" using assms(2) by (cases ws) auto
  have w: "1 \<le> w" using assms(3) ws by simp
  then have "\<forall>c \<in> set (accumulate fl w ws'). 1 \<le> c"
    using assms(1,3) ws by (intro accumulate_ge_one) simp_all
  then have "\<forall>c \<in> set (cum_weights_of fl ws). 1 \<le> c" using w ws by simp
  moreover have "cum_weights_of fl ws \<noteq> []" using ws by simp
  ultimately have "1 \<le> last (cum_weights_of fl ws)" using last_in_set by blast
  then show ?thesis using ws by (simp add: length_accumulate)
qed

lemma random_choices_ok:
  assumes n: "nearest_rounding fl"
    and "population \<noteq> []" "length weights = length population" "\<forall>w \<in> set weights. 1 \<le> w"
  shows "\<exists>x g'. random_choices fl population weights g = Inr (x, g') \<and> x \<in> set population"
proof -
  let ?cum = "cum_weights_of fl weights"
  let ?total = "fl (last ?cum + 0)"
  have ne: "weights \<noteq> []" using assms(2,3) by auto
  note c = cum_weights_of_ok[OF n ne assms(4)]
  have "1 \<le> last ?cum + 0" using c by simp
  then have "1 \<le> ?total" by (rule fl_ge_double[OF n is_double_1])
  then have pos: "\<not> ?total \<le> 0" by simp
  let ?i = "length (takeWhile (\<lambda>c. c \<le> fl (fst (random_random g) * ?total)) (butlast ?cum))"
  have "?i \<le> length (butlast ?cum)" by (rule length_takeWhile_le)
  moreover have "0 < length population" using assms(2) by simp
  ultimately have "?i < length population" using assms(3) c
    by (simp only: length_butlast)
  then have "population ! ?i \<in> set population" by simp
  then show ?thesis using assms(2,3) pos
    by (simp add: random_choices_def Let_def case_prod_beta)
qed

lemma assess_department_needs_weights:
  "dict_keys (assess_department_needs fl reg) = [1, 2, 3, 4, 5, 6, 7, 8, 9]
   \<and> length (dict_values (assess_department_needs fl reg)) = 9
   \<and> (\<forall>w \<in> set (dict_values (assess_department_needs fl reg)). 1 \<le> w)"
  by (simp add: assess_department_needs_def Let_def dict_keys_def dict_values_def)

lemma hires_loop_ok:
  assumes "\<forall>k \<in> fst ` set (active_teachers reg). k < teacher_id_counter reg"
    and "dict_keys needs \<noteq> []" and "\<forall>w \<in> set (dict_values needs). 1 \<le> w"
    and n: "nearest_rounding fl"
  shows "\<exists>reg' added g' fk'.
      hires_loop fl year n needs reg hires g fk = Inr (reg', hires @ map snd added, g', fk')
    \<and> active_teachers reg' = active_teachers reg @ added
    \<and> length added = n
    \<and> (\<forall>p \<in> set added. teacher_id_counter reg \<le> fst p \<and> teacher_id (snd p) = fst p
           \<and> department_id (snd p) \<in> set (dict_keys needs))
    \<and> teacher_id_counter reg' = teacher_id_counter reg + int n"
  using assms(1)
proof (induction n arbitrary: reg hires g fk)
  case 0
  then show ?case by simp
next
  case (Suc n)
  have len: "length (dict_values needs) = length (dict_keys needs)"
    by (simp add: dict_values_def dict_keys_def)
  obtain dept g1 where d: "random_choices fl (dict_keys needs) (dict_values needs) g = Inr (dept, g1)"
    and din: "dept \<in> set (dict_keys needs)"
    using random_choices_ok[OF n assms(2) len assms(3), of g] by blast
  obtain gen g2 where c: "random_choice [''M'', ''F''] g1 = Inr (gen, g2)"
    using random_choice_ok[of "[''M'', ''F'']" g1] by auto
  let ?c = "teacher_id_counter reg"
  let ?fk2 = "snd (fake_next (snd (fake_next fk)))"
  let ?g3 = "snd (random_randint 0 5 g2)"
  let ?t = "\<lparr>teacher_id = ?c, t_first_name = fst (fake_next fk),
             t_last_name = fst (fake_next (snd (fake_next fk))), department_id = dept,
             hire_year = year, years_experience = fst (random_randint 0 5 g2),
             position_level = ''Teacher'', retirement_year = None, departure_year = None\<rparr>"
  let ?reg1 = "reg\<lparr>active_teachers := AList.update ?c ?t (active_teachers reg),
                   teacher_id_counter := ?c + 1\<rparr>"
  have step: "hires_loop fl year (Suc n) needs reg hires g fk
            = hires_loop fl year n needs ?reg1 (hires @ [?t]) ?g3 ?fk2"
    using d c by (simp add: case_prod_beta Let_def)
  have fresh: "?c \<notin> fst ` set (active_teachers reg)" using Suc.prems by auto
  have a1: "active_teachers ?reg1 = active_teachers reg @ [(?c, ?t)]"
    using alist_update_fresh[OF fresh] by simp
  have inv1: "\<forall>k \<in> fst ` set (active_teachers ?reg1). k < teacher_id_counter ?reg1"
    using Suc.prems by (auto simp add: a1)
  from Suc.IH[OF inv1, of "hires @ [?t]" ?g3 ?fk2]
  obtain reg' added g' fk' where
    l: "hires_loop fl year n needs ?reg1 (hires @ [?t]) ?g3 ?fk2
          = Inr (reg', (hires @ [?t]) @ map snd added, g', fk')"
    and a: "active_teachers reg' = active_teachers ?reg1 @ added"
    and ln: "length added = n"
    and pr: "\<forall>p \<in> set added. teacher_id_counter ?reg1 \<le> fst p \<and> teacher_id (snd p) = fst p
           \<and> department_id (snd p) \<in> set (dict_keys needs)"
    and cc: "teacher_id_counter reg' = teacher_id_counter ?reg1 + int n"
    by blast
  let ?added = "(?c, ?t) # added"
  have "hires_loop fl year (Suc n) needs reg hires g fk = Inr (reg', hires @ map snd ?added, g', fk')"
    using step l by simp
  moreover have "active_teachers reg' = active_teachers reg @ ?added" using a a1 by simp
  moreover have "length ?added = Suc n" using ln by simp
  moreover have "\<forall>p \<in> set ?added. ?c \<le> fst p \<and> teacher_id (snd p) = fst p
           \<and> department_id (snd p) \<in> set (dict_keys needs)"
    using pr din by auto
  moreover have "teacher_id_counter reg' = ?c + int (Suc n)" using cc by simp
  ultimately show ?case by blast
qed


lemma load_baseline_teachers_inv:
  assumes "distinct (map fst (active_teachers reg))"
    and "\<forall>p \<in> set (active_teachers reg). teacher_id (snd p) = fst p"
    and "\<forall>k \<in> fst ` set (active_teachers reg). k < teacher_id_counter reg"
  shows "\<exists>reg' g'. load_baseline_teachers reg rows g = Inr (reg', g')
    \<and> distinct (map fst (active_teachers reg'))
    \<and> (\<forall>p \<in> set (active_teachers reg'). teacher_id (snd p) = fst p)
    \<and> (\<forall>k \<in> fst ` set (active_teachers reg'). k < teacher_id_counter reg')"
  using assms
proof (induction rows arbitrary: reg g)
  case Nil
  then show ?case by simp
next
  case (Cons row rows)
  let ?g2 = "snd (random_randint 1 20 (snd (random_randint 2005 2015 g)))"
  obtain pl g3 where c: "random_choice [''Teacher'', ''Senior Teacher'', ''Department Head''] ?g2
       = Inr (pl, g3)"
    using random_choice_ok[of "[''Teacher'', ''Senior Teacher'', ''Department Head'']" ?g2] by auto
  let ?t = "\<lparr>teacher_id = bt_teacher_id row, t_first_name = bt_first_name row,
                      t_last_name = bt_last_name row, department_id = bt_department_id row,
                      hire_year = fst (random_randint 2005 2015 g),
                      years_experience = fst (random_randint 1 20 (snd (random_randint 2005 2015 g))),
                      position_level = pl,
                      retirement_year = None, departure_year = None\<rparr>"
  let ?reg1 = "reg\<lparr>active_teachers := AList.update (bt_teacher_id row) ?t (active_teachers reg),
                 teacher_id_counter := max (teacher_id_counter reg) (bt_teacher_id row + 1)\<rparr>"
  have step: "load_baseline_teachers reg (row # rows) g = load_baseline_teachers ?reg1 rows g3"
    using c by (simp add: case_prod_beta)
  have s: "set (AList.update (bt_teacher_id row) ?t (active_teachers reg))
         \<subseteq> insert (bt_teacher_id row, ?t) (set (active_teachers reg))"
    by (rule set_alist_update_subset)
  have i1: "distinct (map fst (active_teachers ?reg1))"
    using Cons.prems(1) by (simp add: distinct_update)
  have i2: "\<forall>p \<in> set (active_teachers ?reg1). teacher_id (snd p) = fst p"
    using Cons.prems(2) s by auto
  have i3: "\<forall>k \<in> fst ` set (active_teachers ?reg1). k < teacher_id_counter ?reg1"
    using Cons.prems(3) by (auto simp add: dom_update)
  show ?case unfolding step by (rule Cons.IH[OF i1 i2 i3])
qed

lemma process_annual_changes_ok:
  assumes d: "distinct (map fst (active_teachers reg))"
    and ids: "\<forall>p \<in> set (active_teachers reg). teacher_id (snd p) = fst p"
    and fresh: "\<forall>k \<in> fst ` set (active_teachers reg). k < teacher_id_counter reg"
    and n: "nearest_rounding fl"
  shows "\<exists>reg' retirements resignations new_hires g' fk' gone added.
      process_annual_changes fl reg year target turnover_rate g fk
        = Inr (reg', retirements, resignations, new_hires, g', fk')
    \<and> active_teachers reg'
        = map (\<lambda>p. (fst p, age_teacher (snd p)))
            (filter (\<lambda>p. fst p \<notin> gone) (active_teachers reg) @ added)
    \<and> length (filter (\<lambda>p. fst p \<notin> gone) (active_teachers reg))
          + nat (min (py_int (fl (fl (real (length (active_teachers reg))) * turnover_rate)))
                     (int (length (active_teachers reg))))
        = length (active_teachers reg)
    \<and> int (length added)
        = max 0 (target - int (length (filter (\<lambda>p. fst p \<notin> gone) (active_teachers reg))))
    \<and> (\<forall>p \<in> set added. teacher_id_counter reg \<le> fst p)"
proof -
  let ?act = "active_teachers reg"
  let ?cands = "sort_key (\<lambda>t. - years_experience t) (dict_values ?act)"
  let ?n = "nat (min (py_int (fl (fl (real_of_int (int (length ?act))) * turnover_rate))) (int (length ?cands)))"
  let ?ts = "take ?n ?cands"
  have idmap: "map teacher_id (map snd ?act) = map fst ?act"
    using ids by (simp add: map_eq_conv)
  have "distinct (map teacher_id (map snd ?act))" unfolding idmap by (rule d)
  then have "distinct (map snd ?act) \<and> inj_on teacher_id (set (map snd ?act))"
    by (simp only: distinct_map)
  then have "distinct ?cands \<and> inj_on teacher_id (set ?cands)"
    by (simp add: dict_values_def)
  then have dc: "distinct (map teacher_id ?cands)"
    by (simp only: distinct_map)
  have dts: "distinct (map teacher_id ?ts)"
    using dc by (simp add: take_map[symmetric] distinct_take)
  have "set ?ts \<subseteq> set ?cands" by (rule set_take_subset)
  also have "set ?cands = snd ` set ?act" by (simp add: dict_values_def)
  finally have sub: "set ?ts \<subseteq> snd ` set ?act" .
  have ints: "\<forall>t \<in> set ?ts. teacher_id t \<in> fst ` set ?act"
  proof
    fix t assume "t \<in> set ?ts"
    then obtain p where p: "p \<in> set ?act" "t = snd p" using sub by auto
    then have "teacher_id t = fst p" using ids by simp
    then show "teacher_id t \<in> fst ` set ?act" using p by simp
  qed
  have lts: "length ?ts = ?n"
    by (simp add: dict_values_def)
  from departures_loop_ok[OF d dts ints, of year "[]" "[]" g]
  obtain reg1 ret res g1 where
    dl: "departures_loop year ?ts reg [] [] g = Inr (reg1, ret, res, g1)"
    and a1: "active_teachers reg1 = filter (\<lambda>p. fst p \<notin> teacher_id ` set ?ts) ?act"
    and n1: "length (active_teachers reg1) + length ?ts = length ?act"
    and c1: "teacher_id_counter reg1 = teacher_id_counter reg"
    by blast
  let ?gone = "teacher_id ` set ?ts"
  let ?needs = "assess_department_needs fl reg1"
  have inv1: "\<forall>k \<in> fst ` set (active_teachers reg1). k < teacher_id_counter reg1"
    unfolding a1 c1 using fresh by auto
  have nk: "dict_keys ?needs \<noteq> []" and nw: "\<forall>w \<in> set (dict_values ?needs). 1 \<le> w"
    using assess_department_needs_weights[of fl reg1] by simp_all
  let ?h = "nat (max 0 (target - int (length (active_teachers reg1))))"
  from hires_loop_ok[OF inv1 nk nw n, of year ?h "[]" g1 fk]
  obtain reg2 added g2 fk2 where
    hl: "hires_loop fl year ?h ?needs reg1 [] g1 fk = Inr (reg2, [] @ map snd added, g2, fk2)"
    and a2: "active_teachers reg2 = active_teachers reg1 @ added"
    and ln: "length added = ?h"
    and pr: "\<forall>p \<in> set added. teacher_id_counter reg1 \<le> fst p \<and> teacher_id (snd p) = fst p
           \<and> department_id (snd p) \<in> set (dict_keys ?needs)"
    by blast
  have "process_annual_changes fl reg year target turnover_rate g fk
        = Inr (reg2\<lparr>active_teachers :=
                     map (\<lambda>p. (fst p, age_teacher (snd p))) (active_teachers reg2)\<rparr>,
               ret, res, map age_teacher (map snd added), g2, fk2)"
    using dl hl by (simp add: process_annual_changes_def Let_def)
  moreover have "active_teachers (reg2\<lparr>active_teachers :=
                     map (\<lambda>p. (fst p, age_teacher (snd p))) (active_teachers reg2)\<rparr>)
      = map (\<lambda>p. (fst p, age_teacher (snd p))) (filter (\<lambda>p. fst p \<notin> ?gone) ?act @ added)"
    using a1 a2 by simp
  moreover have "length (filter (\<lambda>p. fst p \<notin> ?gone) ?act)
          + nat (min (py_int (fl (fl (real (length ?act)) * turnover_rate))) (int (length ?act)))
        = length ?act"
    using n1 lts a1 by (simp add: dict_values_def)
  moreover have "int (length added) = max 0 (target - int (length (filter (\<lambda>p. fst p \<notin> ?gone) ?act)))"
    using ln a1 by simp
  moreover have "\<forall>p \<in> set added. teacher_id_counter reg \<le> fst p"
    using pr c1 by simp
  ultimately show ?thesis by blast
qed


text \<open>
  Claim C7. For a registry as \<^verbatim>\<open>load_baseline_teachers\<close> leaves it (every teacher
  stored under its own \<^verbatim>\<open>teacher_id\<close>, all ids below the id counter),
  \<^verbatim>\<open>process_annual_changes(year, target_count, turnover_rate)\<close> returns; whenever the
  active count left after the \<^verbatim>\<open>int(active_count * turnover_rate)\<close> departures (at most
  all teachers, none for a negative product) is at most \<^verbatim>\<open>target_count\<close>, the final
  active count is exactly \<^verbatim>\<open>target_count\<close>; and every teacher active before and after
  the call has \<^verbatim>\<open>years_experience\<close> incremented by exactly 1, nothing else changed.
  The number of departures is \<^verbatim>\<open>int\<close> of the float product, whatever that product is:
  the statement holds for every rate and every nearest rounding.
\<close>

theorem process_annual_changes_spec:
  assumes "distinct (map fst (active_teachers reg))"
    and "\<forall>p \<in> set (active_teachers reg). teacher_id (snd p) = fst p"
    and "\<forall>k \<in> fst ` set (active_teachers reg). k < teacher_id_counter reg"
    and "nearest_rounding fl"
  shows "\<exists>reg' retirements resignations new_hires g' fk'.
      process_annual_changes fl reg year target_count turnover_rate g fk
        = Inr (reg', retirements, resignations, new_hires, g', fk')
    \<and> (int (length (active_teachers reg))
          - int (nat (min (py_int (fl (fl (real (length (active_teachers reg))) * turnover_rate)))
                          (int (length (active_teachers reg)))))
          \<le> target_count
        \<longrightarrow> int (length (active_teachers reg')) = target_count)
    \<and> (\<forall>k t t'. map_of (active_teachers reg) k = Some t
                 \<and> map_of (active_teachers reg') k = Some t'
          \<longrightarrow> t' = t\<lparr>years_experience := years_experience t + 1\<rparr>)"
proof -
  let ?act = "active_teachers reg"
  let ?d = "nat (min (py_int (fl (fl (real (length ?act)) * turnover_rate))) (int (length ?act)))"
  from process_annual_changes_ok[OF assms, of year target_count turnover_rate g fk]
  obtain reg' retirements resignations new_hires g' fk' gone added where
    p: "process_annual_changes fl reg year target_count turnover_rate g fk
        = Inr (reg', retirements, resignations, new_hires, g', fk')"
    and a: "active_teachers reg'
        = map (\<lambda>p. (fst p, age_teacher (snd p))) (filter (\<lambda>p. fst p \<notin> gone) ?act @ added)"
    and n: "length (filter (\<lambda>p. fst p \<notin> gone) ?act) + ?d = length ?act"
    and h: "int (length added) = max 0 (target_count - int (length (filter (\<lambda>p. fst p \<notin> gone) ?act)))"
    and f: "\<forall>p \<in> set added. teacher_id_counter reg \<le> fst p"
    by blast
  let ?keep = "filter (\<lambda>p. fst p \<notin> gone) ?act"
  have cnt: "int (length (active_teachers reg')) = target_count"
    if "int (length ?act) - int ?d \<le> target_count"
  proof -
    have "int (length ?keep) = int (length ?act) - int ?d" using n by linarith
    then have "int (length ?keep) \<le> target_count" using that by simp
    then have "int (length added) = target_count - int (length ?keep)" using h by simp
    then show ?thesis unfolding a by simp
  qed
  have exp: "t' = t\<lparr>years_experience := years_experience t + 1\<rparr>"
    if t: "map_of ?act k = Some t" and t': "map_of (active_teachers reg') k = Some t'" for k t t'
  proof -
    have kin: "(k, t) \<in> set ?act" using t by (rule map_of_SomeD)
    then have "k < teacher_id_counter reg" using assms(3) by force
    then have "k \<notin> fst ` set added" using f by force
    then have na: "map_of added k = None" by (simp add: map_of_eq_None_iff)
    have "map_option age_teacher (map_of (?keep @ added) k) = Some t'"
      using t' unfolding a map_of_map_snd .
    then obtain t0 where t0: "map_of ?keep k = Some t0" "t' = age_teacher t0"
      using na by (auto simp add: map_add_def split: option.splits)
    then have "(k, t0) \<in> set ?act" by (auto dest: map_of_SomeD)
    then have "t0 = t" using distinct_fst_unique[OF assms(1) _ kin] by simp
    then show ?thesis using t0 by (simp add: age_teacher_def)
  qed
  show ?thesis using p cnt exp by blast
qed

text \<open>
  Three teachers and the rate 0.5, a double: the product 1.5 is a double too, one teacher
  leaves, and two are hired to reach the target 4.
\<close>

theorem process_annual_changes_spec_witness:
  "distinct (map fst (active_teachers example_teachers))
   \<and> py_int (exact_rounding
        (exact_rounding (real (length (active_teachers example_teachers))) * (1 / 2))) = 1
   \<and> map_sum id (\<lambda>r. int (length (active_teachers (fst r))))
        (process_annual_changes exact_rounding example_teachers 2016 4 (1 / 2) low_rng
           example_faker) = Inr 4"
proof -
  have h1: "distinct (map fst (active_teachers example_teachers))"
    by (simp add: example_teachers_def)
  have h2: "\<forall>p \<in> set (active_teachers example_teachers). teacher_id (snd p) = fst p"
    by (simp add: example_teachers_def example_teacher_def)
  have h3: "\<forall>k \<in> fst ` set (active_teachers example_teachers). k < teacher_id_counter example_teachers"
    by (simp add: example_teachers_def)
  have l: "length (active_teachers example_teachers) = 3"
    by (simp add: example_teachers_def)
  have e: "py_int (exact_rounding
        (exact_rounding (real (length (active_teachers example_teachers))) * (1 / 2))) = 1"
    unfolding l by (simp add: py_int_def exact_rounding_def)
  from process_annual_changes_spec[OF h1 h2 h3 nearest_rounding_exact,
      of 2016 4 "1 / 2" low_rng example_faker]
  obtain reg' retirements resignations new_hires g' fk' where
    p: "process_annual_changes exact_rounding example_teachers 2016 4 (1 / 2) low_rng
          example_faker
        = Inr (reg', retirements, resignations, new_hires, g', fk')"
    and c: "int (length (active_teachers example_teachers))
          - int (nat (min (py_int (exact_rounding
                  (exact_rounding (real (length (active_teachers example_teachers))) * (1 / 2))))
                          (int (length (active_teachers example_teachers)))))
          \<le> 4
        \<longrightarrow> int (length (active_teachers reg')) = 4"
    by blast
  have "int (length (active_teachers reg')) = 4"
    using c unfolding e unfolding l by simp
  then show ?thesis using h1 e p by simp
qed

end
